theory Spec2Isabelle
  imports Complex_Main
begin

section \<open>JavaScript values\<close>

text \<open>
  The client (\<^verbatim>\<open>src/client.ts\<close>) receives the state table as the result of
  \<^verbatim>\<open>JSON.parse\<close>. The TypeScript annotation \<^verbatim>\<open>{ [id: string]: ICoords }\<close> is erased
  at run time, so the handler works on whatever value the parser returned. Numbers are
  JavaScript numbers; the client does no arithmetic on coordinates, so they are modelled
  as reals that are only stored and compared. An object is the list of its own
  enumerable properties in the order \<^verbatim>\<open>Object.keys\<close> lists them.
\<close>

datatype jsval =
    Undefined
  | Null
  | JBool bool
  | JNum real
  | JStr string
  | JArr "jsval list"
  | JObj "(string \<times> jsval) list"

datatype error = SyntaxError | TypeError | InvalidStateError

text \<open>The decimal spelling of an array index, as \<^verbatim>\<open>Object.keys\<close> gives it.\<close>

fun decimal :: "nat \<Rightarrow> string" where
  "decimal n =
     (if n < 10 then [''0123456789'' ! n]
      else decimal (n div 10) @ [''0123456789'' ! (n mod 10)])"

declare decimal.simps [simp del]

definition index_keys :: "nat \<Rightarrow> string list" where
  "index_keys n = map decimal [0..<n]"

text \<open>
  The own enumerable properties of a value, as \<^verbatim>\<open>Object.keys(v)\<close> and \<^verbatim>\<open>v[key]\<close>
  see them: \<^verbatim>\<open>Object.keys(null)\<close> throws a TypeError, a boolean or a number has none,
  a string and an array have their indices.
\<close>

definition own_properties :: "jsval \<Rightarrow> error + (string \<times> jsval) list" where
  "own_properties v =
     (case v of
        Undefined \<Rightarrow> Inl TypeError
      | Null \<Rightarrow> Inl TypeError
      | JBool b \<Rightarrow> Inr []
      | JNum n \<Rightarrow> Inr []
      | JStr s \<Rightarrow> Inr (zip (index_keys (length s)) (map (\<lambda>c. JStr [c]) s))
      | JArr vs \<Rightarrow> Inr (zip (index_keys (length vs)) vs)
      | JObj kvs \<Rightarrow> Inr kvs)"

definition lookup :: "(string \<times> jsval) list \<Rightarrow> string \<Rightarrow> jsval" where
  "lookup kvs k = (case map_of kvs k of Some v \<Rightarrow> v | None \<Rightarrow> Undefined)"

text \<open>
  Reading one of the properties \<^verbatim>\<open>x\<close>, \<^verbatim>\<open>y\<close>, \<^verbatim>\<open>frame\<close> of a value: an object gives
  its own property; no prototype (of objects, arrays, strings, numbers or booleans) has
  a member of one of these three names, so every other read is \<^verbatim>\<open>undefined\<close>.
\<close>

definition get_prop :: "jsval \<Rightarrow> string \<Rightarrow> jsval" where
  "get_prop v k = (case v of JObj kvs \<Rightarrow> lookup kvs k | _ \<Rightarrow> Undefined)"

text \<open>
  \<^verbatim>\<open>const { x, y, frame } = playerCoordinates\<close>: destructuring \<^verbatim>\<open>null\<close> or
  \<^verbatim>\<open>undefined\<close> throws a TypeError.
\<close>

definition destructure :: "jsval \<Rightarrow> error + (jsval \<times> jsval \<times> jsval)" where
  "destructure v =
     (if v = Undefined \<or> v = Null then Inl TypeError
      else Inr (get_prop v ''x'', get_prop v ''y'', get_prop v ''frame''))"

text \<open>
  The registry \<^verbatim>\<open>this.players\<close> is a plain object literal \<^verbatim>\<open>{}\<close>, so it inherits the
  members of \<^verbatim>\<open>Object.prototype\<close>. The operator \<^verbatim>\<open>in\<close> and the read
  \<^verbatim>\<open>this.players[id]\<close> both follow the prototype chain.
\<close>

definition Object_prototype :: "string list" where
  "Object_prototype =
     [''constructor'', ''hasOwnProperty'', ''isPrototypeOf'', ''propertyIsEnumerable'',
      ''toLocaleString'', ''toString'', ''valueOf'', ''__proto__'',
      ''__defineGetter__'', ''__defineSetter__'', ''__lookupGetter__'', ''__lookupSetter__'']"

section \<open>The presentation layer\<close>

text \<open>
  Phaser is an external collaborator. A sprite is modelled by what the client gives it
  and reads back: position, frame, the key of its texture, its physics body when it has
  one, and the animation it plays. \<open>handle\<close> is the identity of the game object.
  \<open>frame_name\<close> is what \<^verbatim>\<open>sprite.frame.name\<close> reads: the frames of a spritesheet are
  named by the key they are set with, the frame number. Every sprite is referenced from
  one slot of the registry only, so the registry holds the sprites themselves.
\<close>

record Body =
  velocity_x :: real
  velocity_y :: real

record Sprite =
  handle :: nat
  sprite_x :: jsval
  sprite_y :: jsval
  frame_name :: jsval
  texture_key :: string
  body :: "Body option"
  playing :: "string option"

record Key =
  isDown :: bool

datatype readyState = CONNECTING | OPEN | CLOSING | CLOSED

record WebSocket =
  readyState :: readyState
  sent :: "jsval list"

text \<open>
  The scene. \<open>sent\<close> of the socket lists the objects the client serialised with
  \<^verbatim>\<open>JSON.stringify\<close> and handed to \<^verbatim>\<open>wsClient.send\<close>, oldest first, one for every
  call, whatever the socket then did with it: the transport is outside the client.
  \<open>readyState\<close> is the socket's state, which decides whether a call throws. \<open>textures\<close>,
  \<open>display_list\<close> and \<open>next_handle\<close> are the part of \<^verbatim>\<open>Phaser.Scene\<close> the client
  depends on: the keys of the loaded textures, the live game objects, and the next
  fresh object identity.
\<close>

record GameScene =
  myId :: string
  wsClient :: "WebSocket option"
  players :: "string \<rightharpoonup> Sprite"
  leftKey :: "Key option"
  rightKey :: "Key option"
  upKey :: "Key option"
  downKey :: "Key option"
  textures :: "string list"
  display_list :: "nat list"
  next_handle :: nat

definition VELOCITY :: real where
  "VELOCITY = 100"

text \<open>
  \<^verbatim>\<open>this.add.sprite(x, y, key, frame)\<close>: a new game object on the display list. When no
  texture is loaded under \<open>key\<close>, the texture manager hands out its placeholder, whose
  key is \<^verbatim>\<open>__MISSING\<close>.
\<close>

definition texture_get :: "string list \<Rightarrow> string \<Rightarrow> string" where
  "texture_get ts key = (if key \<in> set ts then key else ''__MISSING'')"

definition new_sprite :: "GameScene \<Rightarrow> jsval \<Rightarrow> jsval \<Rightarrow> string \<Rightarrow> jsval \<Rightarrow> Sprite" where
  "new_sprite this x y key frame =
     \<lparr> handle = next_handle this, sprite_x = x, sprite_y = y, frame_name = frame,
       texture_key = texture_get (textures this) key, body = None, playing = None \<rparr>"

definition add_sprite :: "GameScene \<Rightarrow> jsval \<Rightarrow> jsval \<Rightarrow> string \<Rightarrow> jsval \<Rightarrow> Sprite \<times> GameScene" where
  "add_sprite this x y key frame =
     (new_sprite this x y key frame,
      this\<lparr> display_list := display_list this @ [next_handle this],
            next_handle := Suc (next_handle this) \<rparr>)"

text \<open>\<^verbatim>\<open>player.destroy()\<close>: the game object leaves the display list.\<close>

definition destroy :: "Sprite \<Rightarrow> GameScene \<Rightarrow> GameScene" where
  "destroy player this = this\<lparr> display_list := removeAll (handle player) (display_list this) \<rparr>"

section \<open>The receive handler\<close>

text \<open>
  What \<^verbatim>\<open>this.players[id]\<close> evaluates to: a sprite stored under \<open>id\<close>, a member
  inherited from \<^verbatim>\<open>Object.prototype\<close> (a function, or the prototype itself for
  \<^verbatim>\<open>__proto__\<close>), or \<^verbatim>\<open>undefined\<close>.
\<close>

datatype member = Own Sprite | Inherited | Absent

definition players_get :: "(string \<rightharpoonup> Sprite) \<Rightarrow> string \<Rightarrow> member" where
  "players_get ps k =
     (case ps k of
        Some p \<Rightarrow> Own p
      | None \<Rightarrow> if k \<in> set Object_prototype then Inherited else Absent)"

text \<open>\<^verbatim>\<open>id in this.players\<close>.\<close>

definition players_in :: "string \<Rightarrow> (string \<rightharpoonup> Sprite) \<Rightarrow> bool" where
  "players_in k ps = (players_get ps k \<noteq> Absent)"

text \<open>
  The handler acts on the presentation layer directly; the model records each of its
  three branches as one action: \<open>Create\<close> for \<^verbatim>\<open>add.sprite\<close> under a new id,
  \<open>Replace\<close> for \<^verbatim>\<open>destroy\<close> followed by \<^verbatim>\<open>add.sprite\<close>, \<open>Update\<close> for
  \<^verbatim>\<open>setX\<close>, \<^verbatim>\<open>setY\<close>, \<^verbatim>\<open>setFrame\<close>. Each carries the id and the three values
  destructured from the table.
\<close>

datatype action =
    Create string jsval jsval jsval
  | Replace string jsval jsval jsval
  | Update string jsval jsval jsval

fun action_id :: "action \<Rightarrow> string" where
  "action_id (Create k x y f) = k"
| "action_id (Replace k x y f) = k"
| "action_id (Update k x y f) = k"

type_synonym handled = "error option \<times> action list \<times> GameScene"

definition emit :: "action \<Rightarrow> handled \<Rightarrow> handled" where
  "emit a r = (fst r, a # fst (snd r), snd (snd r))"

definition thrown :: "handled \<Rightarrow> error option" where
  "thrown r = fst r"

definition actions :: "handled \<Rightarrow> action list" where
  "actions r = fst (snd r)"

definition after :: "handled \<Rightarrow> GameScene" where
  "after r = snd (snd r)"

text \<open>
  The body of \<^verbatim>\<open>for (const playerId of Object.keys(playersCoordinates))\<close>, lines 59 to
  82. An exception leaves the loop and the handler; what the earlier iterations did
  stays done.
\<close>

fun for_playerId :: "(string \<times> jsval) list \<Rightarrow> GameScene \<Rightarrow> string list \<Rightarrow> handled" where
  "for_playerId playersCoordinates this [] = (None, [], this)"
| "for_playerId playersCoordinates this (playerId # rest) =
     (if playerId = myId this then for_playerId playersCoordinates this rest
      else
        (case destructure (lookup playersCoordinates playerId) of
           Inl e \<Rightarrow> (Some e, [], this)
         | Inr (x, y, frame) \<Rightarrow>
            (if \<not> players_in playerId (players this) then
               emit (Create playerId x y frame)
                 (for_playerId playersCoordinates
                    ((snd (add_sprite this x y ''player'' frame))
                       \<lparr> players := (players this)(playerId \<mapsto>
                            fst (add_sprite this x y ''player'' frame)) \<rparr>)
                    rest)
             else
               (case players_get (players this) playerId of
                  Own player \<Rightarrow>
                    (if texture_key player = ''__MISSING'' then
                       emit (Replace playerId x y frame)
                         (for_playerId playersCoordinates
                            ((snd (add_sprite (destroy player this) x y ''player'' frame))
                               \<lparr> players := (players this)(playerId \<mapsto>
                                    fst (add_sprite (destroy player this) x y ''player'' frame)) \<rparr>)
                            rest)
                     else
                       emit (Update playerId x y frame)
                         (for_playerId playersCoordinates
                            (this\<lparr> players := (players this)(playerId \<mapsto>
                                 player\<lparr> sprite_x := x, sprite_y := y, frame_name := frame \<rparr>) \<rparr>)
                            rest))
                | Inherited \<Rightarrow> (Some TypeError, [], this)
                | Absent \<Rightarrow> (Some TypeError, [], this)))))"

text \<open>
  The handler of line 55. Its argument is the outcome of
  \<^verbatim>\<open>JSON.parse(wsMsgEvent.data)\<close>: the exception the parser threw, or the value it
  returned. Nothing in the handler catches an exception.
\<close>

definition onmessage :: "GameScene \<Rightarrow> error + jsval \<Rightarrow> handled" where
  "onmessage this parsed =
     (case parsed of
        Inl e \<Rightarrow> (Some e, [], this)
      | Inr playersCoordinates \<Rightarrow>
          (case own_properties playersCoordinates of
             Inl e \<Rightarrow> (Some e, [], this)
           | Inr entries \<Rightarrow> for_playerId entries this (map fst entries)))"

section \<open>The tick\<close>

text \<open>\<^verbatim>\<open>this.leftKey && this.leftKey.isDown\<close>: a key that is not bound yet counts as up.\<close>

definition key_isDown :: "Key option \<Rightarrow> bool" where
  "key_isDown k = (case k of None \<Rightarrow> False | Some key \<Rightarrow> isDown key)"

text \<open>
  The animations of \<^verbatim>\<open>create()\<close>, lines 100 to 123: each key with the frame numbers
  \<^verbatim>\<open>generateFrameNumbers\<close> lists for it.
\<close>

definition anims :: "(string \<times> real list) list" where
  "anims =
     [(''left'', [8, 9]), (''right'', [1, 2]), (''up'', [11, 12, 13]), (''down'', [4, 5, 6])]"

text \<open>
  \<^verbatim>\<open>sprite.play(key, ignoreIfPlaying)\<close>: nothing when the sprite already plays \<open>key\<close>
  and \<open>ignoreIfPlaying\<close> is set; otherwise the animation starts and the sprite shows
  its first frame. \<^verbatim>\<open>sprite.anims.stop()\<close> ends the animation and keeps the frame.
\<close>

definition play :: "string \<Rightarrow> bool \<Rightarrow> Sprite \<Rightarrow> Sprite" where
  "play key ignoreIfPlaying sprite =
     (if ignoreIfPlaying \<and> playing sprite = Some key then sprite
      else
        (case map_of anims key of
           Some (f # fs) \<Rightarrow> sprite\<lparr> frame_name := JNum f, playing := Some key \<rparr>
         | _ \<Rightarrow> sprite))"

definition anims_stop :: "Sprite \<Rightarrow> Sprite" where
  "anims_stop sprite = sprite\<lparr> playing := None \<rparr>"

definition setVelocityX :: "real \<Rightarrow> Sprite \<Rightarrow> Sprite" where
  "setVelocityX v sprite = sprite\<lparr> body := map_option (\<lambda>b. b\<lparr> velocity_x := v \<rparr>) (body sprite) \<rparr>"

definition setVelocityY :: "real \<Rightarrow> Sprite \<Rightarrow> Sprite" where
  "setVelocityY v sprite = sprite\<lparr> body := map_option (\<lambda>b. b\<lparr> velocity_y := v \<rparr>) (body sprite) \<rparr>"

text \<open>\<^verbatim>\<open>body.setVelocity(v)\<close> with one argument sets both axes to \<open>v\<close>.\<close>

definition setVelocity :: "real \<Rightarrow> Sprite \<Rightarrow> Sprite" where
  "setVelocity v sprite =
     sprite\<lparr> body := map_option (\<lambda>b. b\<lparr> velocity_x := v, velocity_y := v \<rparr>) (body sprite) \<rparr>"

text \<open>Lines 153 to 167 and 168 to 182: the two axes, and whether a movement key is down.\<close>

definition horizontal :: "GameScene \<Rightarrow> Sprite \<Rightarrow> Sprite" where
  "horizontal this myPlayer =
     (if key_isDown (leftKey this) then play ''left'' True (setVelocityX (- VELOCITY) myPlayer)
      else if key_isDown (rightKey this) then play ''right'' True (setVelocityX VELOCITY myPlayer)
      else setVelocityX 0 myPlayer)"

definition vertical :: "GameScene \<Rightarrow> Sprite \<Rightarrow> Sprite" where
  "vertical this myPlayer =
     (if key_isDown (upKey this) then play ''up'' True (setVelocityY (- VELOCITY) myPlayer)
      else if key_isDown (downKey this) then play ''down'' True (setVelocityY VELOCITY myPlayer)
      else setVelocityY 0 myPlayer)"

definition moving :: "GameScene \<Rightarrow> bool" where
  "moving this =
     (key_isDown (leftKey this) \<or> key_isDown (rightKey this) \<or>
      key_isDown (upKey this) \<or> key_isDown (downKey this))"

text \<open>
  The object literal of lines 189 to 194, the argument of \<^verbatim>\<open>JSON.stringify\<close>.
\<close>

definition sample_message :: "string \<Rightarrow> Sprite \<Rightarrow> jsval" where
  "sample_message ident myPlayer =
     JObj [(''id'', JStr ident), (''x'', sprite_x myPlayer), (''y'', sprite_y myPlayer),
           (''frame'', frame_name myPlayer)]"

text \<open>
  \<^verbatim>\<open>wsClient.send(data)\<close>: the call is recorded; made while the socket is still
  connecting it throws an InvalidStateError, in every other state it returns.
\<close>

definition send :: "jsval \<Rightarrow> WebSocket \<Rightarrow> error option \<times> WebSocket" where
  "send m ws =
     (if readyState ws = CONNECTING then Some InvalidStateError else None,
      ws\<lparr> sent := sent ws @ [m] \<rparr>)"

text \<open>
  \<^verbatim>\<open>update()\<close>, lines 149 to 199. \<^verbatim>\<open>this.players[this.myId]\<close> is truthy for a sprite
  and for an inherited member; the latter has no \<^verbatim>\<open>body\<close>, and so has a sprite that
  was not made by the physics factory, and the first statement of every branch
  dereferences the body. The sprite is changed in place before line 188 sends, so what
  the tick did to it stays done when \<^verbatim>\<open>send\<close> throws. \<^verbatim>\<open>myPlayer.update()\<close> is the
  empty method of a game object.
\<close>

definition update :: "GameScene \<Rightarrow> error option \<times> GameScene" where
  "update this =
     (case players_get (players this) (myId this) of
        Absent \<Rightarrow> (None, this)
      | Inherited \<Rightarrow> (Some TypeError, this)
      | Own myPlayer \<Rightarrow>
          (if body myPlayer = None then (Some TypeError, this)
           else if \<not> moving this then
             (None,
              this\<lparr> players := (players this)(myId this \<mapsto>
                      anims_stop (setVelocity 0 (vertical this (horizontal this myPlayer)))) \<rparr>)
           else
             (case wsClient this of
                Some ws \<Rightarrow>
                  (fst (send (sample_message (myId this)
                          (vertical this (horizontal this myPlayer))) ws),
                   this\<lparr> wsClient :=
                           Some (snd (send (sample_message (myId this)
                                   (vertical this (horizontal this myPlayer))) ws)),
                         players := (players this)(myId this \<mapsto>
                           vertical this (horizontal this myPlayer)) \<rparr>)
              | None \<Rightarrow>
                  (None,
                   this\<lparr> players := (players this)(myId this \<mapsto>
                           vertical this (horizontal this myPlayer)) \<rparr>))))"

section \<open>The life of a scene\<close>

text \<open>
  The field initialisers of the class, lines 17 to 29: \<^verbatim>\<open>myId = uuid()\<close> is evaluated
  here, once, with \<open>uuid\<close> the token the call returned; there is no socket yet.
\<close>

definition new_GameScene :: "string \<Rightarrow> GameScene" where
  "new_GameScene uuid =
     \<lparr> myId = uuid, wsClient = None, players = Map.empty,
       leftKey = None, rightKey = None, upKey = None, downKey = None,
       textures = [], display_list = [], next_handle = 0 \<rparr>"

text \<open>
  \<^verbatim>\<open>init()\<close> creates the socket, which starts connecting, and installs the handler.
\<close>

definition init :: "GameScene \<Rightarrow> GameScene" where
  "init this = this\<lparr> wsClient := Some \<lparr> readyState = CONNECTING, sent = [] \<rparr> \<rparr>"

text \<open>The loader finishing what \<^verbatim>\<open>preload()\<close> queued: the two textures are there.\<close>

definition preload :: "GameScene \<Rightarrow> GameScene" where
  "preload this = this\<lparr> textures := ''tiles'' # ''player'' # textures this \<rparr>"

text \<open>
  \<^verbatim>\<open>this.physics.add.sprite\<close> is \<^verbatim>\<open>add.sprite\<close> with a body at rest. \<^verbatim>\<open>create()\<close>,
  line 126 and lines 137 to 146, stores the local sprite under the local id and binds
  the four keys. (Assigning under the name \<^verbatim>\<open>__proto__\<close> would not define a property;
  no token of \<^verbatim>\<open>uuid()\<close> is that name.)
\<close>

definition physics_add_sprite ::
    "GameScene \<Rightarrow> jsval \<Rightarrow> jsval \<Rightarrow> string \<Rightarrow> jsval \<Rightarrow> Sprite \<times> GameScene" where
  "physics_add_sprite this x y key frame =
     ((fst (add_sprite this x y key frame))\<lparr> body := Some \<lparr> velocity_x = 0, velocity_y = 0 \<rparr> \<rparr>,
      snd (add_sprite this x y key frame))"

definition create :: "GameScene \<Rightarrow> GameScene" where
  "create this =
     (snd (physics_add_sprite this (JNum 48) (JNum 48) ''player'' (JNum 1)))
       \<lparr> players := (players this)(myId this \<mapsto>
            fst (physics_add_sprite this (JNum 48) (JNum 48) ''player'' (JNum 1))),
         leftKey := Some \<lparr> isDown = False \<rparr>, rightKey := Some \<lparr> isDown = False \<rparr>,
         upKey := Some \<lparr> isDown = False \<rparr>, downKey := Some \<lparr> isDown = False \<rparr> \<rparr>"

text \<open>
  What the browser and the engine do to a running scene: a message arrives (an
  exception the handler throws is reported and the handler stays installed), a key goes
  down or up, the engine calls \<^verbatim>\<open>update()\<close>, the physics world moves the local
  sprite, the animation shows its next frame, the socket changes its state.
\<close>

datatype key_name = LEFT | RIGHT | UP | DOWN

datatype event =
    Message "error + jsval"
  | Keyboard key_name bool
  | Tick
  | Moved real real
  | Animated real
  | Socket readyState

definition set_isDown :: "bool \<Rightarrow> Key option \<Rightarrow> Key option" where
  "set_isDown d k = map_option (\<lambda>key. key\<lparr> isDown := d \<rparr>) k"

fun keyboard :: "key_name \<Rightarrow> bool \<Rightarrow> GameScene \<Rightarrow> GameScene" where
  "keyboard LEFT d this = this\<lparr> leftKey := set_isDown d (leftKey this) \<rparr>"
| "keyboard RIGHT d this = this\<lparr> rightKey := set_isDown d (rightKey this) \<rparr>"
| "keyboard UP d this = this\<lparr> upKey := set_isDown d (upKey this) \<rparr>"
| "keyboard DOWN d this = this\<lparr> downKey := set_isDown d (downKey this) \<rparr>"

definition on_local :: "(Sprite \<Rightarrow> Sprite) \<Rightarrow> GameScene \<Rightarrow> GameScene" where
  "on_local f this =
     (case players this (myId this) of
        Some p \<Rightarrow> this\<lparr> players := (players this)(myId this \<mapsto> f p) \<rparr>
      | None \<Rightarrow> this)"

fun step :: "GameScene \<Rightarrow> event \<Rightarrow> GameScene" where
  "step this (Message parsed) = after (onmessage this parsed)"
| "step this (Keyboard k d) = keyboard k d this"
| "step this Tick = snd (update this)"
| "step this (Moved x y) = on_local (\<lambda>p. p\<lparr> sprite_x := JNum x, sprite_y := JNum y \<rparr>) this"
| "step this (Animated n) = on_local (\<lambda>p. p\<lparr> frame_name := JNum n \<rparr>) this"
| "step this (Socket r) =
     this\<lparr> wsClient := map_option (\<lambda>ws. ws\<lparr> readyState := r \<rparr>) (wsClient this) \<rparr>"

definition run :: "GameScene \<Rightarrow> event list \<Rightarrow> GameScene" where
  "run this events = foldl step this events"

text \<open>
  A client session: the scene is constructed with its token, \<^verbatim>\<open>init()\<close> opens the
  socket, messages may arrive while the assets load, \<^verbatim>\<open>create()\<close> runs when they are
  loaded, and the events of the running scene follow.
\<close>

definition session :: "string \<Rightarrow> (error + jsval) list \<Rightarrow> event list \<Rightarrow> GameScene" where
  "session uuid early events =
     run (create (preload (run (init (new_GameScene uuid)) (map Message early)))) events"

definition sent_messages :: "GameScene \<Rightarrow> jsval list" where
  "sent_messages this = (case wsClient this of None \<Rightarrow> [] | Some ws \<Rightarrow> sent ws)"

section \<open>The vocabulary of the specification\<close>

definition is_number :: "jsval \<Rightarrow> bool" where
  "is_number v = (case v of JNum n \<Rightarrow> True | _ \<Rightarrow> False)"

definition is_string :: "jsval \<Rightarrow> bool" where
  "is_string v = (case v of JStr s \<Rightarrow> True | _ \<Rightarrow> False)"

text \<open>The interface \<^verbatim>\<open>ICoords\<close> of lines 8 to 12, as the parser returns a value of it.\<close>

definition ICoords :: "real \<Rightarrow> real \<Rightarrow> real \<Rightarrow> jsval" where
  "ICoords x y frame = JObj [(''x'', JNum x), (''y'', JNum y), (''frame'', JNum frame)]"

text \<open>
  A well-formed sample is an object with numeric \<^verbatim>\<open>x\<close>, \<^verbatim>\<open>y\<close> and \<^verbatim>\<open>frame\<close>; a
  well-formed state table is an object, its keys unique, whose values are samples.
\<close>

definition is_sample :: "jsval \<Rightarrow> bool" where
  "is_sample v =
     (case v of
        JObj kvs \<Rightarrow>
          is_number (lookup kvs ''x'') \<and> is_number (lookup kvs ''y'') \<and>
          is_number (lookup kvs ''frame'')
      | _ \<Rightarrow> False)"

definition is_table :: "jsval \<Rightarrow> bool" where
  "is_table v =
     (case v of
        JObj kvs \<Rightarrow> distinct (map fst kvs) \<and> list_all (\<lambda>kv. is_sample (snd kv)) kvs
      | _ \<Rightarrow> False)"

text \<open>The ids a message carries: the keys the handler's loop runs over.\<close>

definition received_ids :: "error + jsval \<Rightarrow> string list" where
  "received_ids parsed =
     (case parsed of
        Inl e \<Rightarrow> []
      | Inr v \<Rightarrow> (case own_properties v of Inl e \<Rightarrow> [] | Inr entries \<Rightarrow> map fst entries))"

text \<open>
  The three-way rule in the specification's words, section 4.4: \<open>Create\<close> if the id is
  not in the registry, \<open>Replace\<close> if it is and its handle is invalid, else \<open>Update\<close>.
  A handle is invalid when its texture is the placeholder.
\<close>

definition isHandleValid :: "Sprite \<Rightarrow> bool" where
  "isHandleValid sprite = (texture_key sprite \<noteq> ''__MISSING'')"

definition three_way_rule :: "(string \<rightharpoonup> Sprite) \<Rightarrow> string \<times> jsval \<Rightarrow> action" where
  "three_way_rule registry entry =
     (case registry (fst entry) of
        None \<Rightarrow>
          Create (fst entry) (get_prop (snd entry) ''x'') (get_prop (snd entry) ''y'')
            (get_prop (snd entry) ''frame'')
      | Some sprite \<Rightarrow>
          if \<not> isHandleValid sprite then
            Replace (fst entry) (get_prop (snd entry) ''x'') (get_prop (snd entry) ''y'')
              (get_prop (snd entry) ''frame'')
          else
            Update (fst entry) (get_prop (snd entry) ''x'') (get_prop (snd entry) ''y'')
              (get_prop (snd entry) ''frame''))"

text \<open>
  The shape of a message from client to server, section 6:
  \<^verbatim>\<open>{ id: string, x: number, y: number, frame: number|string }\<close>, with the id given.
\<close>

definition client_message :: "string \<Rightarrow> jsval \<Rightarrow> bool" where
  "client_message ident m =
     (case m of
        JObj kvs \<Rightarrow>
          map fst kvs = [''id'', ''x'', ''y'', ''frame''] \<and>
          lookup kvs ''id'' = JStr ident \<and>
          is_number (lookup kvs ''x'') \<and> is_number (lookup kvs ''y'') \<and>
          (is_number (lookup kvs ''frame'') \<or> is_string (lookup kvs ''frame''))
      | _ \<Rightarrow> False)"

section \<open>One iteration of the handler's loop\<close>

text \<open>
  A view of the loop body used in the proofs: an iteration skips the local id, stops
  with an exception, or acts and hands the next iteration a new scene.
  \<open>for_playerId_Cons\<close> below shows that the loop is the run of its iterations.
\<close>

datatype iter = Skip | Stop error | Act action GameScene

definition iteration :: "(string \<times> jsval) list \<Rightarrow> GameScene \<Rightarrow> string \<Rightarrow> iter" where
  "iteration pc this k =
     (if k = myId this then Skip
      else
        (case destructure (lookup pc k) of
           Inl e \<Rightarrow> Stop e
         | Inr (x, y, frame) \<Rightarrow>
            (case players_get (players this) k of
               Absent \<Rightarrow>
                 Act (Create k x y frame)
                   ((snd (add_sprite this x y ''player'' frame))
                      \<lparr> players := (players this)(k \<mapsto> fst (add_sprite this x y ''player'' frame)) \<rparr>)
             | Inherited \<Rightarrow> Stop TypeError
             | Own player \<Rightarrow>
                 (if texture_key player = ''__MISSING'' then
                    Act (Replace k x y frame)
                      ((snd (add_sprite (destroy player this) x y ''player'' frame))
                         \<lparr> players := (players this)(k \<mapsto>
                              fst (add_sprite (destroy player this) x y ''player'' frame)) \<rparr>)
                  else
                    Act (Update k x y frame)
                      (this\<lparr> players := (players this)(k \<mapsto>
                           player\<lparr> sprite_x := x, sprite_y := y, frame_name := frame \<rparr>) \<rparr>)))))"

text \<open>
  An id that the handler's test \<^verbatim>\<open>playerId in this.players\<close> finds in the registry
  although no sprite is stored under it: a non-local id that names a member of
  \<^verbatim>\<open>Object.prototype\<close>.
\<close>

definition inherited_id :: "GameScene \<Rightarrow> string \<Rightarrow> bool" where
  "inherited_id this k =
     (k \<noteq> myId this \<and> players this k = None \<and> k \<in> set Object_prototype)"

section \<open>Example scenes\<close>

text \<open>
  The registry \<^verbatim>\<open>{A: handleA}\<close> of the specification's reconciliation scenario, in a
  scene whose local id is \<^verbatim>\<open>C\<close> and whose textures are loaded.
\<close>

definition handleA :: Sprite where
  "handleA =
     \<lparr> handle = 0, sprite_x = JNum 10, sprite_y = JNum 20, frame_name = JNum 4,
       texture_key = ''player'', body = None, playing = None \<rparr>"

definition scene_A :: GameScene where
  "scene_A =
     (preload (init (new_GameScene ''C'')))
       \<lparr> players := [''A'' \<mapsto> handleA], display_list := [0], next_handle := 1 \<rparr>"

section \<open>Running scenes\<close>

text \<open>
  What holds of a scene once \<^verbatim>\<open>init()\<close> and \<^verbatim>\<open>create()\<close> have run: the socket is
  there, every message handed to it has the client-to-server shape with the local id
  and a numbered frame, and the local sprite is in the registry with a body, numeric coordinates and a
  numbered frame.
\<close>

definition running :: "GameScene \<Rightarrow> bool" where
  "running this =
     (case wsClient this of
        None \<Rightarrow> False
      | Some ws \<Rightarrow>
          list_all (client_message (myId this)) (sent ws) \<and>
          list_all (\<lambda>m. is_number (get_prop m ''frame'')) (sent ws) \<and>
          (case players this (myId this) of
             None \<Rightarrow> False
           | Some p \<Rightarrow>
               body p \<noteq> None \<and> is_number (sprite_x p) \<and> is_number (sprite_y p) \<and>
               is_number (frame_name p)))"

text \<open>
  The invariant of the specification's data model, section 3: a registry entry exists
  exactly when the presentation layer has a live game object for it. Every sprite of
  the registry has an identity the scene has handed out, no two entries share one, and
  the display list holds exactly the identities of the registry's sprites.
\<close>

definition registry_live :: "GameScene \<Rightarrow> bool" where
  "registry_live this =
     ((\<forall>k p. players this k = Some p \<longrightarrow> handle p < next_handle this) \<and>
      (\<forall>k j p q. players this k = Some p \<and> players this j = Some q \<and> handle q = handle p
         \<longrightarrow> j = k) \<and>
      set (display_list this) = {h. \<exists>k p. players this k = Some p \<and> handle p = h})"

section \<open>Numbers as JSON text\<close>

text \<open>
  The client decodes a message with \<^verbatim>\<open>JSON.parse\<close> (line 56) and encodes one with
  \<^verbatim>\<open>JSON.stringify\<close> (line 189). Both belong to the runtime; they are modelled from
  their definition in the ECMAScript specification (\<^verbatim>\<open>JSON.parse\<close>, \<^verbatim>\<open>JSON.stringify\<close>,
  \<^verbatim>\<open>Number::toString\<close>, \<^verbatim>\<open>QuoteJSONString\<close>) over the values of this theory: numbers are
  reals and a string is a list of 8-bit characters.
\<close>

definition is_digit :: "char \<Rightarrow> bool" where
  "is_digit c = (c \<in> set ''0123456789'')"

definition digit_value :: "char \<Rightarrow> nat" where
  "digit_value c = of_char c - 48"

definition value_of :: "string \<Rightarrow> nat" where
  "value_of ds = foldl (\<lambda>a c. 10 * a + digit_value c) 0 ds"

text \<open>The \<open>k\<close> digits of \<open>f\<close>, leading zeros kept: the digits after the decimal point.\<close>

fun fraction :: "nat \<Rightarrow> nat \<Rightarrow> string" where
  "fraction 0 f = []"
| "fraction (Suc k) f = (''0123456789'' ! (f div 10 ^ k)) # fraction k (f mod 10 ^ k)"

definition is_int :: "real \<Rightarrow> bool" where
  "is_int y = (of_int \<lfloor>y\<rfloor> = y)"

text \<open>
  The number of digits a number has after the decimal point: the least \<open>k\<close> with
  \<open>y * 10 ^ k\<close> an integer. A finite double is \<open>m * 2 ^ e\<close> with \<open>e \<ge> - 1074\<close>, so it
  has at most 1074 of them; the search stops there. A real with no such \<open>k\<close> is not the
  value of a finite double.
\<close>

fun scale_search :: "nat \<Rightarrow> nat \<Rightarrow> real \<Rightarrow> nat option" where
  "scale_search fuel k y =
     (if fuel = 0 then None
      else if is_int (y * 10 ^ k) then Some k
      else scale_search (fuel - 1) (Suc k) y)"

declare scale_search.simps [simp del]

definition decimal_scale :: "real \<Rightarrow> nat option" where
  "decimal_scale y = scale_search 1075 0 y"


text \<open>
  \<^verbatim>\<open>JSON.stringify\<close> of a number: the text \<^verbatim>\<open>null\<close> for a number that is not finite,
  otherwise the decimal digits of the number, a minus sign first when it is negative,
  the integer part, and the digits after the point when there are any.
\<close>

definition print_number :: "real \<Rightarrow> string" where
  "print_number y =
     (case decimal_scale y of
        None \<Rightarrow> ''null''
      | Some k \<Rightarrow>
          (if y < 0 then ''-'' else []) @
          decimal (nat \<lfloor>\<bar>y\<bar> * 10 ^ k\<rfloor> div 10 ^ k) @
          (if k = 0 then [] else CHR ''.'' # fraction k (nat \<lfloor>\<bar>y\<bar> * 10 ^ k\<rfloor> mod 10 ^ k)))"

text \<open>
  A number of the JSON grammar: an optional minus sign, an integer part without a
  leading zero, an optional fraction, an optional exponent. Each stage returns what it
  read and the text that follows.
\<close>

definition digits :: "string \<Rightarrow> string \<times> string" where
  "digits s = (takeWhile is_digit s, dropWhile is_digit s)"

definition parse_sign :: "string \<Rightarrow> bool \<times> string" where
  "parse_sign s =
     (case s of
        [] \<Rightarrow> (False, [])
      | c # r \<Rightarrow> if c = CHR ''-'' then (True, r) else (False, s))"

definition parse_fraction :: "string \<Rightarrow> (string \<times> string) option" where
  "parse_fraction s =
     (case s of
        [] \<Rightarrow> Some ([], [])
      | c # r \<Rightarrow>
          if c = CHR ''.''
          then (if fst (digits r) = [] then None else Some (digits r))
          else Some ([], s))"

definition parse_exponent :: "string \<Rightarrow> (int \<times> string) option" where
  "parse_exponent s =
     (case s of
        [] \<Rightarrow> Some (0, [])
      | c # r \<Rightarrow>
          if c = CHR ''e'' \<or> c = CHR ''E''
          then
            (case r of
               [] \<Rightarrow> None
             | d # r' \<Rightarrow>
                 if d = CHR ''-''
                 then (if fst (digits r') = [] then None
                       else Some (- int (value_of (fst (digits r'))), snd (digits r')))
                 else if d = CHR ''+''
                 then (if fst (digits r') = [] then None
                       else Some (int (value_of (fst (digits r'))), snd (digits r')))
                 else (if fst (digits r) = [] then None
                       else Some (int (value_of (fst (digits r))), snd (digits r))))
          else Some (0, s))"

definition scaled :: "real \<Rightarrow> int \<Rightarrow> real" where
  "scaled y e = (if e < 0 then y / 10 ^ nat (- e) else y * 10 ^ nat e)"

definition parse_number :: "string \<Rightarrow> (real \<times> string) option" where
  "parse_number s =
     (case parse_sign s of
        (neg, s1) \<Rightarrow>
          (case digits s1 of
             (ip, s2) \<Rightarrow>
               if ip = [] \<or> (length ip > 1 \<and> hd ip = CHR ''0'') then None
               else
                 (case parse_fraction s2 of
                    None \<Rightarrow> None
                  | Some (fp, s3) \<Rightarrow>
                      (case parse_exponent s3 of
                         None \<Rightarrow> None
                       | Some (e, s4) \<Rightarrow>
                           Some ((if neg then - 1 else 1) *
                                 scaled (real (value_of ip) +
                                         real (value_of fp) / 10 ^ length fp) e,
                                 s4)))))"


section \<open>Strings as JSON text\<close>

definition dquote :: char where
  "dquote = CHR 0x22"

definition backslash :: char where
  "backslash = CHR 0x5C"

definition hex_digit :: "nat \<Rightarrow> char" where
  "hex_digit n = ''0123456789abcdef'' ! n"

definition hex_value :: "char \<Rightarrow> nat option" where
  "hex_value c =
     (if c \<in> set ''0123456789'' then Some (of_char c - 48)
      else if c \<in> set ''abcdef'' then Some (of_char c - 87)
      else if c \<in> set ''ABCDEF'' then Some (of_char c - 55)
      else None)"

text \<open>
  \<^verbatim>\<open>QuoteJSONString\<close>: the double quote and the backslash are escaped with a backslash,
  the control characters have their two-character escape when there is one and the
  escape \<^verbatim>\<open>u00XX\<close> after a backslash, its digits in lower case, otherwise; every
  other character stands for itself.
\<close>

definition escape :: "char \<Rightarrow> string" where
  "escape c =
     (if c = dquote then [backslash, dquote]
      else if c = backslash then [backslash, backslash]
      else if c = CHR 0x08 then [backslash, CHR ''b'']
      else if c = CHR 0x0C then [backslash, CHR ''f'']
      else if c = CHR 0x0A then [backslash, CHR ''n'']
      else if c = CHR 0x0D then [backslash, CHR ''r'']
      else if c = CHR 0x09 then [backslash, CHR ''t'']
      else if (of_char c :: nat) < 32
      then [backslash, CHR ''u'', CHR ''0'', CHR ''0'',
            hex_digit (of_char c div 16), hex_digit (of_char c mod 16)]
      else [c])"

definition quote :: "string \<Rightarrow> string" where
  "quote s = dquote # concat (map escape s) @ [dquote]"

text \<open>
  The character an escape stands for, read after its backslash. The parser also takes
  the escaped solidus and upper-case hexadecimal digits. An escape \<^verbatim>\<open>uXXXX\<close> above
  \<^verbatim>\<open>u00FF\<close> names a character that the strings of this theory do not have.
\<close>

definition unescape :: "string \<Rightarrow> (char \<times> string) option" where
  "unescape s =
     (case s of
        [] \<Rightarrow> None
      | e # r \<Rightarrow>
          if e = dquote then Some (dquote, r)
          else if e = backslash then Some (backslash, r)
          else if e = CHR ''/'' then Some (CHR ''/'', r)
          else if e = CHR ''b'' then Some (CHR 0x08, r)
          else if e = CHR ''f'' then Some (CHR 0x0C, r)
          else if e = CHR ''n'' then Some (CHR 0x0A, r)
          else if e = CHR ''r'' then Some (CHR 0x0D, r)
          else if e = CHR ''t'' then Some (CHR 0x09, r)
          else if e = CHR ''u'' then
            (case r of
               a # b # c # d # r' \<Rightarrow>
                 (case (hex_value a, hex_value b, hex_value c, hex_value d) of
                    (Some h3, Some h2, Some h1, Some h0) \<Rightarrow>
                      if h3 = 0 \<and> h2 = 0 then Some (char_of (16 * h1 + h0), r') else None
                  | _ \<Rightarrow> None)
             | _ \<Rightarrow> None)
          else None)"

lemma unescape_shorter: "unescape s = Some (c, r) \<Longrightarrow> length r < length s"
  by (auto simp: unescape_def split: list.splits if_splits option.splits)

text \<open>
  The characters of a string up to its closing quote. A control character inside a
  string is a syntax error.
\<close>

function chars :: "string \<Rightarrow> (string \<times> string) option" where
  "chars [] = None"
| "chars (c # cs) =
     (if c = dquote then Some ([], cs)
      else if c = backslash then
        (case unescape cs of
           None \<Rightarrow> None
         | Some (ch, r) \<Rightarrow>
             (case chars r of None \<Rightarrow> None | Some (t, r') \<Rightarrow> Some (ch # t, r')))
      else if (of_char c :: nat) < 32 then None
      else (case chars cs of None \<Rightarrow> None | Some (t, r') \<Rightarrow> Some (c # t, r')))"
  by pat_completeness auto

termination
  by (relation "measure length") (auto dest: unescape_shorter)

definition parse_string :: "string \<Rightarrow> (string \<times> string) option" where
  "parse_string s =
     (case s of [] \<Rightarrow> None | c # cs \<Rightarrow> if c = dquote then chars cs else None)"

section \<open>Values as JSON text\<close>


definition property :: "string \<Rightarrow> string \<Rightarrow> string" where
  "property k t = quote k @ CHR '':'' # t"



section \<open>JSON text as values\<close>

definition is_ws :: "char \<Rightarrow> bool" where
  "is_ws c = (c = CHR '' '' \<or> c = CHR 0x09 \<or> c = CHR 0x0A \<or> c = CHR 0x0D)"

definition skip_ws :: "string \<Rightarrow> string" where
  "skip_ws s = dropWhile is_ws s"

definition starts :: "char \<Rightarrow> string \<Rightarrow> bool" where
  "starts c s = (case s of [] \<Rightarrow> False | d # r \<Rightarrow> d = c)"

definition literal :: "string \<Rightarrow> string \<Rightarrow> string option" where
  "literal w s = (if take (length w) s = w then Some (drop (length w) s) else None)"

text \<open>
  The parser builds an object by creating its properties in the order of the text
  (\<^verbatim>\<open>CreateDataProperty\<close>). A key met again keeps its place and takes the later value.
  The own keys of an object are listed with the array indices first, in ascending
  order, and the other keys after them in the order of their creation; an array index
  is the decimal spelling of a number below \<open>2 ^ 32 - 1\<close>.
\<close>

definition is_index :: "string \<Rightarrow> bool" where
  "is_index k =
     (k \<noteq> [] \<and> list_all is_digit k \<and> (length k = 1 \<or> hd k \<noteq> CHR ''0'') \<and>
      value_of k < 4294967295)"

definition create_property :: "string \<Rightarrow> jsval \<Rightarrow> (string \<times> jsval) list \<Rightarrow> (string \<times> jsval) list" where
  "create_property k v ps =
     (if k \<in> set (map fst ps) then map (\<lambda>p. if fst p = k then (k, v) else p) ps
      else if is_index k then
        takeWhile (\<lambda>p. is_index (fst p) \<and> value_of (fst p) < value_of k) ps @ (k, v) #
        dropWhile (\<lambda>p. is_index (fst p) \<and> value_of (fst p) < value_of k) ps
      else ps @ [(k, v)])"

definition create_properties :: "(string \<times> jsval) list \<Rightarrow> (string \<times> jsval) list" where
  "create_properties kvs = foldl (\<lambda>ps kv. create_property (fst kv) (snd kv) ps) [] kvs"

lemma skip_ws_length: "length (skip_ws s) \<le> length s"
  by (simp add: skip_ws_def length_dropWhile_le)

lemma skip_tl_length: "length (skip_ws (tl (skip_ws r))) \<le> length r"
proof -
  have "length (skip_ws (tl (skip_ws r))) \<le> length (tl (skip_ws r))" by (rule skip_ws_length)
  also have "\<dots> \<le> length (skip_ws r)" by simp
  also have "\<dots> \<le> length r" by (rule skip_ws_length)
  finally show ?thesis .
qed

lemma chars_shorter: "chars s = Some (t, r) \<Longrightarrow> length r < length s"
proof (induction s arbitrary: t r rule: chars.induct)
  case 1
  then show ?case by simp
next
  case (2 c cs)
  show ?case
  proof (cases "c = dquote")
    case True
    with 2(3) show ?thesis by simp
  next
    case nq: False
    show ?thesis
    proof (cases "c = backslash")
      case True
      with nq 2(3) obtain ch r0 t0 where u: "unescape cs = Some (ch, r0)"
        and c: "chars r0 = Some (t0, r)"
        by (auto split: option.splits)
      from 2(1) [OF nq True u refl c] unescape_shorter [OF u]
      show ?thesis by simp
    next
      case False
      with nq 2(3) obtain t0 where c: "chars cs = Some (t0, r)"
        by (auto split: option.splits if_splits)
      from False nq 2(3) have "\<not> (of_char c :: nat) < 32" by (auto split: if_splits)
      from 2(2) [OF nq False this c] show ?thesis by simp
    qed
  qed
qed

lemma parse_string_shorter: "parse_string s = Some (t, r) \<Longrightarrow> length r < length s"
  by (cases s) (auto simp: parse_string_def dest: chars_shorter split: if_splits)

text \<open>
  A value of the JSON grammar at the head of a text, and the text after it. The
  elements of an array and the members of an object are read after the opening
  bracket, up to and with the closing one; white space may stand around every token.
  The parser reads on only in the text that a value has left, which is shorter than
  the text the value was read from (lemma \<open>parse_value_shorter\<close>).
\<close>

function parse_value :: "string \<Rightarrow> (jsval \<times> string) option"
  and parse_elements :: "string \<Rightarrow> (jsval list \<times> string) option"
  and parse_members :: "string \<Rightarrow> ((string \<times> jsval) list \<times> string) option" where
  "parse_value s =
     (case s of
        [] \<Rightarrow> None
      | c # cs \<Rightarrow>
          if c = CHR ''{'' then
            (if starts (CHR ''}'') (skip_ws cs) then Some (JObj [], tl (skip_ws cs))
             else
               (case parse_members (skip_ws cs) of
                  None \<Rightarrow> None
                | Some (kvs, r) \<Rightarrow> Some (JObj (create_properties kvs), r)))
          else if c = CHR ''['' then
            (if starts (CHR '']'') (skip_ws cs) then Some (JArr [], tl (skip_ws cs))
             else
               (case parse_elements (skip_ws cs) of
                  None \<Rightarrow> None
                | Some (vs, r) \<Rightarrow> Some (JArr vs, r)))
          else if c = dquote then
            (case parse_string s of None \<Rightarrow> None | Some (t, r) \<Rightarrow> Some (JStr t, r))
          else if c = CHR ''t'' then
            (case literal ''true'' s of None \<Rightarrow> None | Some r \<Rightarrow> Some (JBool True, r))
          else if c = CHR ''f'' then
            (case literal ''false'' s of None \<Rightarrow> None | Some r \<Rightarrow> Some (JBool False, r))
          else if c = CHR ''n'' then
            (case literal ''null'' s of None \<Rightarrow> None | Some r \<Rightarrow> Some (Null, r))
          else
            (case parse_number s of None \<Rightarrow> None | Some (y, r) \<Rightarrow> Some (JNum y, r)))"
| "parse_elements s =
     (case parse_value s of
        None \<Rightarrow> None
      | Some (v, r) \<Rightarrow>
          if length r < length s then
            (if starts (CHR '','') (skip_ws r) then
               (case parse_elements (skip_ws (tl (skip_ws r))) of
                  None \<Rightarrow> None
                | Some (vs, r') \<Rightarrow> Some (v # vs, r'))
             else if starts (CHR '']'') (skip_ws r) then Some ([v], tl (skip_ws r))
             else None)
          else None)"
| "parse_members s =
     (case parse_string s of
        None \<Rightarrow> None
      | Some (k, r) \<Rightarrow>
          if starts (CHR '':'') (skip_ws r) then
            (case parse_value (skip_ws (tl (skip_ws r))) of
               None \<Rightarrow> None
             | Some (v, r') \<Rightarrow>
                 if length r' < length s then
                   (if starts (CHR '','') (skip_ws r') then
                      (case parse_members (skip_ws (tl (skip_ws r'))) of
                         None \<Rightarrow> None
                       | Some (kvs, r'') \<Rightarrow> Some ((k, v) # kvs, r''))
                    else if starts (CHR ''}'') (skip_ws r') then Some ([(k, v)], tl (skip_ws r'))
                    else None)
                 else None)
          else None)"
  by pat_completeness auto

termination
  apply (relation "measure (\<lambda>x. case x of Inl s \<Rightarrow> 2 * length s | Inr (Inl s) \<Rightarrow> 2 * length s + 1
                                        | Inr (Inr s) \<Rightarrow> 2 * length s + 1)")
  apply simp_all
  subgoal for s c cs using skip_ws_length [of cs] by simp
  subgoal for s c cs using skip_ws_length [of cs] by simp
  subgoal for s p v r using skip_tl_length [of r] by simp
  subgoal for s p k r using skip_tl_length [of r] parse_string_shorter [of s k r] by simp
  subgoal for s p k r q v r' using skip_tl_length [of r'] by simp
  done

declare parse_value.simps [simp del] parse_elements.simps [simp del] parse_members.simps [simp del]

text \<open>
  \<^verbatim>\<open>JSON.parse(text)\<close>: one value with nothing but white space around it; every other
  text throws a \<^verbatim>\<open>SyntaxError\<close>.
\<close>

definition JSON_parse :: "string \<Rightarrow> error + jsval" where
  "JSON_parse text =
     (case parse_value (skip_ws text) of
        None \<Rightarrow> Inl SyntaxError
      | Some (v, r) \<Rightarrow> if skip_ws r = [] then Inr v else Inl SyntaxError)"

section \<open>The codec of the state table\<close>


text \<open>
  The client's decoder: line 56 is \<^verbatim>\<open>JSON.parse(wsMsgEvent.data)\<close> and a type
  assertion, which is erased. The handler of a message event is \<open>onmessage\<close> on what
  the decoder returns.
\<close>

definition decodeTable :: "string \<Rightarrow> error + jsval" where
  "decodeTable bytes = JSON_parse bytes"

definition onmessage_event :: "GameScene \<Rightarrow> string \<Rightarrow> handled" where
  "onmessage_event this data = onmessage this (decodeTable data)"





section \<open>Properties of the handler's loop\<close>

lemma thrown_emit [simp]: "thrown (emit a r) = thrown r"
  by (simp add: thrown_def emit_def)

lemma actions_emit [simp]: "actions (emit a r) = a # actions r"
  by (simp add: actions_def emit_def)

lemma after_emit [simp]: "after (emit a r) = after r"
  by (simp add: after_def emit_def)

lemma handled_triple [simp]:
  "thrown (e, as, s) = e" "actions (e, as, s) = as" "after (e, as, s) = s"
  by (simp_all add: thrown_def actions_def after_def)

lemma for_playerId_Cons:
  "for_playerId pc this (k # rest) =
     (case iteration pc this k of
        Skip \<Rightarrow> for_playerId pc this rest
      | Stop e \<Rightarrow> (Some e, [], this)
      | Act a this' \<Rightarrow> emit a (for_playerId pc this' rest))"
  by (simp add: iteration_def players_in_def split: sum.splits member.splits prod.splits)

declare for_playerId.simps(2) [simp del]

lemma iteration_Skip: "iteration pc this k = Skip \<longleftrightarrow> k = myId this"
  by (simp add: iteration_def split: sum.splits member.splits prod.splits)

lemma iteration_Act:
  assumes "iteration pc this k = Act a this'"
  shows "myId this' = myId this" and "wsClient this' = wsClient this"
    and "textures this' = textures this"
    and "leftKey this' = leftKey this" and "rightKey this' = rightKey this"
    and "upKey this' = upKey this" and "downKey this' = downKey this"
    and "action_id a = k" and "k \<noteq> myId this"
    and "players this' k \<noteq> None"
    and "j \<noteq> k \<Longrightarrow> players this' j = players this j"
  using assms
  by (auto simp: iteration_def add_sprite_def destroy_def
           split: if_splits sum.splits member.splits prod.splits)

lemma for_playerId_fields:
  "myId (after (for_playerId pc this ks)) = myId this \<and>
   wsClient (after (for_playerId pc this ks)) = wsClient this \<and>
   textures (after (for_playerId pc this ks)) = textures this \<and>
   leftKey (after (for_playerId pc this ks)) = leftKey this \<and>
   rightKey (after (for_playerId pc this ks)) = rightKey this \<and>
   upKey (after (for_playerId pc this ks)) = upKey this \<and>
   downKey (after (for_playerId pc this ks)) = downKey this"
proof (induction ks arbitrary: this)
  case Nil
  show ?case by simp
next
  case (Cons k rest)
  show ?case
  proof (cases "iteration pc this k")
    case Skip
    with Cons show ?thesis by (simp add: for_playerId_Cons)
  next
    case (Stop e)
    then show ?thesis by (simp add: for_playerId_Cons)
  next
    case (Act a this')
    with Cons [of this'] iteration_Act [OF Act] show ?thesis
      by (simp add: for_playerId_Cons)
  qed
qed

lemma for_playerId_untouched:
  "k \<notin> set ks \<or> k = myId this \<Longrightarrow>
   players (after (for_playerId pc this ks)) k = players this k"
proof (induction ks arbitrary: this)
  case Nil
  show ?case by simp
next
  case (Cons j rest)
  show ?case
  proof (cases "iteration pc this j")
    case Skip
    with Cons show ?thesis by (auto simp: for_playerId_Cons)
  next
    case (Stop e)
    then show ?thesis by (simp add: for_playerId_Cons)
  next
    case (Act a this')
    have "k \<noteq> j" using Cons.prems iteration_Act(9) [OF Act] by auto
    moreover have "k \<notin> set rest \<or> k = myId this'"
      using Cons.prems iteration_Act(1) [OF Act] by auto
    ultimately show ?thesis
      using Cons.IH [of this'] iteration_Act(11) [OF Act, of k] Act
      by (simp add: for_playerId_Cons)
  qed
qed

lemma for_playerId_action_ids:
  "a \<in> set (actions (for_playerId pc this ks)) \<Longrightarrow>
   action_id a \<in> set ks \<and> action_id a \<noteq> myId this"
proof (induction ks arbitrary: this)
  case Nil
  then show ?case by simp
next
  case (Cons j rest)
  show ?case
  proof (cases "iteration pc this j")
    case Skip
    with Cons show ?thesis by (auto simp: for_playerId_Cons)
  next
    case (Stop e)
    with Cons.prems show ?thesis by (simp add: for_playerId_Cons)
  next
    case (Act b this')
    from Cons.prems Act have "a = b \<or> a \<in> set (actions (for_playerId pc this' rest))"
      by (simp add: for_playerId_Cons)
    then show ?thesis
    proof
      assume "a = b"
      then show ?thesis using iteration_Act(8,9) [OF Act] by simp
    next
      assume "a \<in> set (actions (for_playerId pc this' rest))"
      from Cons.IH [OF this] iteration_Act(1) [OF Act] show ?thesis by simp
    qed
  qed
qed

lemma for_playerId_keeps:
  "players this k \<noteq> None \<Longrightarrow> players (after (for_playerId pc this ks)) k \<noteq> None"
proof (induction ks arbitrary: this)
  case Nil
  then show ?case by simp
next
  case (Cons j rest)
  show ?case
  proof (cases "iteration pc this j")
    case Skip
    with Cons show ?thesis by (auto simp: for_playerId_Cons)
  next
    case (Stop e)
    with Cons.prems show ?thesis by (simp add: for_playerId_Cons)
  next
    case (Act b this')
    have "players this' k \<noteq> None"
      using iteration_Act(10) [OF Act] iteration_Act(11) [OF Act, of k] Cons.prems by (cases "k = j") auto
    from Cons.IH [OF this] Act show ?thesis by (simp add: for_playerId_Cons)
  qed
qed

lemma iteration_inherited:
  assumes "inherited_id this k" and "lookup pc k \<noteq> Undefined" and "lookup pc k \<noteq> Null"
  shows "iteration pc this k = Stop TypeError"
  using assms by (simp add: iteration_def inherited_id_def destructure_def players_get_def)

lemma iteration_sample:
  assumes "k \<noteq> myId this" and "\<not> inherited_id this k"
    and "lookup pc k \<noteq> Undefined" and "lookup pc k \<noteq> Null"
  shows "\<exists>this'. iteration pc this k = Act (three_way_rule (players this) (k, lookup pc k)) this'"
  using assms
  by (auto simp: iteration_def inherited_id_def destructure_def players_get_def
        three_way_rule_def isHandleValid_def split: option.splits)

lemma three_way_rule_cong:
  "registry (fst entry) = registry' (fst entry) \<Longrightarrow>
   three_way_rule registry entry = three_way_rule registry' entry"
  by (simp add: three_way_rule_def)

lemma is_sample_defined: "is_sample v \<Longrightarrow> v \<noteq> Undefined \<and> v \<noteq> Null"
  by (auto simp: is_sample_def)

lemma lookup_distinct:
  "distinct (map fst kvs) \<Longrightarrow> (k, v) \<in> set kvs \<Longrightarrow> lookup kvs k = v"
  by (simp add: lookup_def)

lemma inherited_id_cong:
  "myId this' = myId this \<Longrightarrow> players this' k = players this k \<Longrightarrow>
   inherited_id this' k = inherited_id this k"
  by (simp add: inherited_id_def)

lemma for_playerId_table:
  assumes "distinct ks" and "\<forall>k\<in>set ks. is_sample (lookup pc k)"
  shows "actions (for_playerId pc this ks) =
           map (\<lambda>k. three_way_rule (players this) (k, lookup pc k))
             (filter (\<lambda>k. k \<noteq> myId this) (takeWhile (\<lambda>k. \<not> inherited_id this k) ks)) \<and>
         thrown (for_playerId pc this ks) =
           (if \<exists>k\<in>set ks. inherited_id this k then Some TypeError else None) \<and>
         dom (players (after (for_playerId pc this ks))) =
           dom (players this) \<union>
           (set (takeWhile (\<lambda>k. \<not> inherited_id this k) ks) - {myId this})"
  using assms
proof (induction ks arbitrary: this)
  case Nil
  show ?case by simp
next
  case (Cons k rest)
  from Cons.prems have s: "lookup pc k \<noteq> Undefined" "lookup pc k \<noteq> Null"
    using is_sample_defined by auto
  from Cons.prems have rest: "distinct rest" "\<forall>k\<in>set rest. is_sample (lookup pc k)"
    and fresh: "k \<notin> set rest" by simp_all
  show ?case
  proof (cases "k = myId this")
    case True
    then have "iteration pc this k = Skip" "\<not> inherited_id this k"
      by (simp_all add: iteration_Skip inherited_id_def)
    then show ?thesis using Cons.IH [OF rest, of this] True
      by (auto simp: for_playerId_Cons)
  next
    case False
    show ?thesis
    proof (cases "inherited_id this k")
      case True
      then show ?thesis using iteration_inherited [OF True s]
        by (simp add: for_playerId_Cons)
    next
      case no: False
      from iteration_sample [OF False no s] obtain this' where
        act: "iteration pc this k = Act (three_way_rule (players this) (k, lookup pc k)) this'"
        by blast
      have same: "myId this' = myId this" by (rule iteration_Act(1) [OF act])
      have other: "\<And>j. j \<noteq> k \<Longrightarrow> players this' j = players this j"
        by (rule iteration_Act(11) [OF act])
      have here: "players this' k \<noteq> None" by (rule iteration_Act(10) [OF act])
      have inh: "\<And>j. j \<in> set rest \<Longrightarrow> inherited_id this' j = inherited_id this j"
        using fresh by (intro inherited_id_cong same other) auto
      then have tw: "takeWhile (\<lambda>j. \<not> inherited_id this' j) rest =
                     takeWhile (\<lambda>j. \<not> inherited_id this j) rest"
        by (intro takeWhile_cong refl) simp
      have ex: "(\<exists>j\<in>set rest. inherited_id this' j) = (\<exists>j\<in>set rest. inherited_id this j)"
        using inh by auto
      have "\<And>j. j \<in> set (takeWhile (\<lambda>j. \<not> inherited_id this j) rest) \<Longrightarrow> j \<noteq> k"
        using fresh set_takeWhileD by fastforce
      then have m: "map (\<lambda>j. three_way_rule (players this') (j, lookup pc j))
                    (filter (\<lambda>j. j \<noteq> myId this) (takeWhile (\<lambda>j. \<not> inherited_id this j) rest)) =
                  map (\<lambda>j. three_way_rule (players this) (j, lookup pc j))
                    (filter (\<lambda>j. j \<noteq> myId this) (takeWhile (\<lambda>j. \<not> inherited_id this j) rest))"
        by (intro map_cong refl three_way_rule_cong) (auto intro!: other)
      have d: "dom (players this') = insert k (dom (players this))"
        using other here by (auto simp: dom_def) metis
      show ?thesis
        using Cons.IH [OF rest, of this'] False no
        by (auto simp: for_playerId_Cons act same m d tw ex)
    qed
  qed
qed

lemma map_keys_prefix:
  assumes "distinct (map fst kvs)" and "set es \<subseteq> set kvs"
  shows "map (\<lambda>k. f (k, lookup kvs k)) (filter P (map fst es)) =
         map f (filter (\<lambda>kv. P (fst kv)) es)"
proof -
  have "map (\<lambda>k. f (k, lookup kvs k)) (filter P (map fst es)) =
        map (\<lambda>kv. f (fst kv, lookup kvs (fst kv))) (filter (\<lambda>kv. P (fst kv)) es)"
    by (simp add: filter_map comp_def)
  also have "\<dots> = map f (filter (\<lambda>kv. P (fst kv)) es)"
    using assms by (intro map_cong refl) (auto simp: lookup_distinct)
  finally show ?thesis .
qed

lemma handler_on_tables:
  assumes "is_table (JObj kvs)"
  shows "actions (onmessage this (Inr (JObj kvs))) =
           map (three_way_rule (players this))
             (filter (\<lambda>kv. fst kv \<noteq> myId this)
                (takeWhile (\<lambda>kv. \<not> inherited_id this (fst kv)) kvs)) \<and>
         thrown (onmessage this (Inr (JObj kvs))) =
           (if \<exists>kv\<in>set kvs. inherited_id this (fst kv) then Some TypeError else None) \<and>
         dom (players (after (onmessage this (Inr (JObj kvs))))) =
           dom (players this) \<union>
           (fst ` set (takeWhile (\<lambda>kv. \<not> inherited_id this (fst kv)) kvs) - {myId this})"
proof -
  from assms have d: "distinct (map fst kvs)"
    and s: "\<forall>kv\<in>set kvs. is_sample (snd kv)"
    by (simp_all add: is_table_def list_all_iff)
  have l: "\<forall>k\<in>set (map fst kvs). is_sample (lookup kvs k)"
    using d s by (auto simp: lookup_distinct)
  let ?es = "takeWhile (\<lambda>kv. \<not> inherited_id this (fst kv)) kvs"
  have t: "takeWhile (\<lambda>k. \<not> inherited_id this k) (map fst kvs) = map fst ?es"
    by (simp add: takeWhile_map comp_def)
  have "set ?es \<subseteq> set kvs" by (auto dest: set_takeWhileD)
  from map_keys_prefix [OF d this]
  have m: "map (\<lambda>k. three_way_rule (players this) (k, lookup kvs k))
             (filter (\<lambda>k. k \<noteq> myId this) (map fst ?es)) =
           map (three_way_rule (players this)) (filter (\<lambda>kv. fst kv \<noteq> myId this) ?es)" .
  from for_playerId_table [OF d l, of this] show ?thesis
    by (simp add: onmessage_def own_properties_def t m)
qed

lemma three_way_on_plain_tables:
  assumes "is_table (JObj kvs)" and "\<forall>k\<in>set (map fst kvs). k \<notin> set Object_prototype"
  shows "thrown (onmessage this (Inr (JObj kvs))) = None \<and>
         actions (onmessage this (Inr (JObj kvs))) =
           map (three_way_rule (players this)) (filter (\<lambda>kv. fst kv \<noteq> myId this) kvs) \<and>
         dom (players (after (onmessage this (Inr (JObj kvs))))) =
           dom (players this) \<union> (set (map fst kvs) - {myId this})"
proof -
  have n: "\<forall>kv\<in>set kvs. \<not> inherited_id this (fst kv)"
    using assms(2) by (simp add: inherited_id_def)
  then have "takeWhile (\<lambda>kv. \<not> inherited_id this (fst kv)) kvs = kvs"
    by (simp add: takeWhile_eq_all_conv)
  with handler_on_tables [OF assms(1), of this] n show ?thesis by simp
qed

section \<open>Properties of the handler\<close>

lemma onmessage_fields:
  "myId (after (onmessage this parsed)) = myId this \<and>
   wsClient (after (onmessage this parsed)) = wsClient this \<and>
   textures (after (onmessage this parsed)) = textures this \<and>
   leftKey (after (onmessage this parsed)) = leftKey this \<and>
   rightKey (after (onmessage this parsed)) = rightKey this \<and>
   upKey (after (onmessage this parsed)) = upKey this \<and>
   downKey (after (onmessage this parsed)) = downKey this"
  using for_playerId_fields
  by (simp add: onmessage_def split: sum.splits)

lemma onmessage_cases:
  obtains (raised) e where "onmessage this parsed = (Some e, [], this)"
      and "received_ids parsed = []"
    | (looped) entries where "onmessage this parsed = for_playerId entries this (map fst entries)"
      and "received_ids parsed = map fst entries"
proof (cases parsed)
  case (Inl e)
  then show ?thesis using raised by (simp add: onmessage_def received_ids_def)
next
  case (Inr v)
  show ?thesis
  proof (cases "own_properties v")
    case (Inl e)
    with Inr show ?thesis using raised by (simp add: onmessage_def received_ids_def)
  next
    case (Inr entries)
    with \<open>parsed = Inr v\<close> show ?thesis using looped
      by (simp add: onmessage_def received_ids_def)
  qed
qed

lemma onmessage_untouched:
  assumes "k \<notin> set (received_ids parsed) \<or> k = myId this"
  shows "players (after (onmessage this parsed)) k = players this k"
proof (cases rule: onmessage_cases [of this parsed])
  case (raised e)
  then show ?thesis by simp
next
  case (looped entries)
  with assms for_playerId_untouched [of k "map fst entries" this entries] show ?thesis
    by simp
qed

lemma onmessage_action_ids:
  assumes "a \<in> set (actions (onmessage this parsed))"
  shows "action_id a \<in> set (received_ids parsed) \<and> action_id a \<noteq> myId this"
proof (cases rule: onmessage_cases [of this parsed])
  case (raised e)
  with assms show ?thesis by simp
next
  case (looped entries)
  with assms for_playerId_action_ids [of a entries this "map fst entries"] show ?thesis
    by simp
qed

lemma onmessage_keeps:
  "players this k \<noteq> None \<Longrightarrow> players (after (onmessage this parsed)) k \<noteq> None"
  using for_playerId_keeps
  by (simp add: onmessage_def split: sum.splits)

lemma registry_never_shrinks:
  "dom (players this) \<subseteq> dom (players (after (onmessage this parsed)))"
  using onmessage_keeps by (auto simp: dom_def)

lemmas scene_simps =
  onmessage_def own_properties_def iteration_def for_playerId_Cons destructure_def
  lookup_def get_prop_def players_get_def players_in_def Object_prototype_def
  add_sprite_def new_sprite_def destroy_def texture_get_def ICoords_def
  new_GameScene_def init_def preload_def scene_A_def handleA_def

lemma reconciliation_scenario:
  "thrown (onmessage scene_A (Inr (JObj [(''A'', ICoords x1 y1 f1), (''B'', ICoords x2 y2 f2)]))) = None \<and>
   actions (onmessage scene_A (Inr (JObj [(''A'', ICoords x1 y1 f1), (''B'', ICoords x2 y2 f2)]))) =
     [Update ''A'' (JNum x1) (JNum y1) (JNum f1), Create ''B'' (JNum x2) (JNum y2) (JNum f2)] \<and>
   players (after (onmessage scene_A
       (Inr (JObj [(''A'', ICoords x1 y1 f1), (''B'', ICoords x2 y2 f2)])))) ''A'' =
     Some (handleA\<lparr> sprite_x := JNum x1, sprite_y := JNum y1, frame_name := JNum f1 \<rparr>) \<and>
   players (after (onmessage scene_A
       (Inr (JObj [(''A'', ICoords x1 y1 f1), (''B'', ICoords x2 y2 f2)])))) ''B'' =
     Some \<lparr> handle = 1, sprite_x = JNum x2, sprite_y = JNum y2, frame_name = JNum f2,
            texture_key = ''player'', body = None, playing = None \<rparr>"
  by (simp add: scene_simps)

text \<open>
  Claim C1: for each non-local id of a received table the handler takes exactly one
  action, \<open>Create\<close> when the id is not in the registry. The loop obeys the rule up
  to the first id that names a member of \<^verbatim>\<open>Object.prototype\<close> (\<open>handler_on_tables\<close>),
  so for every table without such an id (\<open>three_way_on_plain_tables\<close>), and the
  specification's scenario comes out as written (\<open>reconciliation_scenario\<close>). For the id \<^verbatim>\<open>toString\<close> the rule says
  \<open>Create\<close>, since the registry \<^verbatim>\<open>{A: handleA}\<close> has no such entry; the handler's
  test \<^verbatim>\<open>playerId in this.players\<close> finds the inherited method, reads
  \<^verbatim>\<open>player.texture.key\<close> on it and throws a TypeError: no action, no entry.
\<close>
theorem inherited_id_is_not_created:
  "three_way_rule (players scene_A) (''toString'', ICoords 1 2 3) =
     Create ''toString'' (JNum 1) (JNum 2) (JNum 3) \<and>
   onmessage scene_A (Inr (JObj [(''toString'', ICoords 1 2 3)])) =
     (Some TypeError, [], scene_A)"
  by (simp add: scene_simps three_way_rule_def)

text \<open>
  Claim C9: after a well-formed table the registry's keys are the previous keys and the
  non-local ids of the table. The registry never loses a key (\<open>registry_never_shrinks\<close>)
  and gains exactly the non-local ids of a table whose ids are not names of members of
  \<^verbatim>\<open>Object.prototype\<close> (\<open>three_way_on_plain_tables\<close>). The exception that the id
  \<^verbatim>\<open>toString\<close> raises ends the loop, so the id \<^verbatim>\<open>B\<close> that follows it in the
  table gets no entry: the registry is still \<^verbatim>\<open>{A: handleA}\<close>.
\<close>
theorem inherited_id_hides_later_ids:
  "is_table (JObj [(''toString'', ICoords 1 2 3), (''B'', ICoords 4 5 6)]) \<and>
   ''B'' \<noteq> myId scene_A \<and>
   dom (players (after (onmessage scene_A
       (Inr (JObj [(''toString'', ICoords 1 2 3), (''B'', ICoords 4 5 6)]))))) = {''A''}"
  by (simp add: scene_simps is_table_def is_sample_def is_number_def)

text \<open>
  Claim C3, self-exclusion: whatever the handler receives, no action it takes carries
  the local id, and the registry's slot for the local id is after the message what it
  was before: not created, not replaced, not updated.
\<close>
theorem self_exclusion:
  "myId this \<notin> action_id ` set (actions (onmessage this parsed)) \<and>
   players (after (onmessage this parsed)) (myId this) = players this (myId this)"
  using onmessage_action_ids [of _ this parsed] onmessage_untouched [of "myId this" parsed this]
  by fastforce

theorem self_exclusion_witness:
  "''C'' \<in> set (received_ids (Inr (JObj [(''C'', ICoords 1 2 3), (''B'', ICoords 4 5 6)]))) \<and>
   ''C'' \<notin> action_id ` set (actions (onmessage scene_A
       (Inr (JObj [(''C'', ICoords 1 2 3), (''B'', ICoords 4 5 6)])))) \<and>
   players (after (onmessage scene_A
       (Inr (JObj [(''C'', ICoords 1 2 3), (''B'', ICoords 4 5 6)])))) ''C'' = None"
  using self_exclusion [of scene_A "Inr (JObj [(''C'', ICoords 1 2 3), (''B'', ICoords 4 5 6)])"]
  by (simp add: received_ids_def own_properties_def scene_A_def new_GameScene_def init_def preload_def)

text \<open>
  Claim C4: an id that is in the registry and not among the ids of the received message
  keeps its entry, the same sprite with the same handle and the same contents; no
  action of the handler carries that id; and no key leaves the registry, so nothing is
  ever removed. (In a session the sprite also stays on the display list:
  \<open>absent_ids_stay_displayed\<close> below.)
\<close>
theorem absent_ids_untouched:
  assumes "players this k = Some sprite" and "k \<notin> set (received_ids parsed)"
  shows "players (after (onmessage this parsed)) k = Some sprite \<and>
         k \<notin> action_id ` set (actions (onmessage this parsed)) \<and>
         dom (players this) \<subseteq> dom (players (after (onmessage this parsed)))"
  using assms onmessage_untouched [of k parsed this] onmessage_action_ids [of _ this parsed]
    registry_never_shrinks [of this parsed]
  by auto

theorem absent_ids_untouched_witness:
  "players scene_A ''A'' = Some handleA \<and>
   ''A'' \<notin> set (received_ids (Inr (JObj [(''B'', ICoords 4 5 6)]))) \<and>
   players (after (onmessage scene_A (Inr (JObj [(''B'', ICoords 4 5 6)])))) ''A'' = Some handleA \<and>
   ''A'' \<notin> action_id ` set (actions (onmessage scene_A (Inr (JObj [(''B'', ICoords 4 5 6)])))) \<and>
   dom (players scene_A) \<subseteq> dom (players (after (onmessage scene_A (Inr (JObj [(''B'', ICoords 4 5 6)])))))"
proof -
  have a: "players scene_A ''A'' = Some handleA"
    by (simp add: scene_A_def)
  have b: "''A'' \<notin> set (received_ids (Inr (JObj [(''B'', ICoords 4 5 6)])))"
    by (simp add: received_ids_def own_properties_def)
  show ?thesis using a b absent_ids_untouched [OF a b] by simp
qed

text \<open>
  Claim C2: a payload that is not a well-formed table yields no action and leaves the
  registry unchanged. The handler validates nothing. The payload \<^verbatim>\<open>{"a": {}}\<close> is
  valid JSON and not a table of samples; the handler creates a sprite for \<^verbatim>\<open>a\<close>
  from three undefined values and stores it in the registry.
\<close>
theorem unvalidated_payload_creates_counterexample:
  "\<not> is_table (JObj [(''a'', JObj [])]) \<and>
   actions (onmessage scene_A (Inr (JObj [(''a'', JObj [])]))) =
     [Create ''a'' Undefined Undefined Undefined] \<and>
   players scene_A ''a'' = None \<and>
   players (after (onmessage scene_A (Inr (JObj [(''a'', JObj [])])))) ''a'' =
     Some \<lparr> handle = 1, sprite_x = Undefined, sprite_y = Undefined, frame_name = Undefined,
            texture_key = ''player'', body = None, playing = None \<rparr>"
  by (simp add: scene_simps is_table_def is_sample_def is_number_def)

text \<open>
  Claim C2 as amended: when the payload is not valid JSON, so that \<^verbatim>\<open>JSON.parse\<close>
  throws, the handler ends with that exception before its loop: no action, the scene
  and its registry unchanged. The exception is not fatal: the run of the scene goes on
  with the next event as if the message had not arrived.
\<close>

theorem unparsable_message_dropped:
  "onmessage this (Inl e) = (Some e, [], this) \<and>
   run this (Message (Inl e) # events) = run this events"
  by (simp add: onmessage_def run_def)

section \<open>Properties of the tick\<close>

lemma update_fields:
  "myId (snd (update this)) = myId this \<and>
   textures (snd (update this)) = textures this \<and>
   leftKey (snd (update this)) = leftKey this \<and>
   rightKey (snd (update this)) = rightKey this \<and>
   upKey (snd (update this)) = upKey this \<and>
   downKey (snd (update this)) = downKey this"
  by (simp add: update_def split: member.splits option.splits)


lemma play_keeps:
  "sprite_x (play key i p) = sprite_x p" "sprite_y (play key i p) = sprite_y p"
  "body (play key i p) = body p" "handle (play key i p) = handle p"
  "texture_key (play key i p) = texture_key p"
  by (simp_all add: play_def split: option.splits list.splits)

lemma play_frame: "is_number (frame_name p) \<Longrightarrow> is_number (frame_name (play key i p))"
  by (simp add: play_def is_number_def split: option.splits list.splits)

lemma horizontal_keeps:
  "sprite_x (horizontal this p) = sprite_x p" "sprite_y (horizontal this p) = sprite_y p"
  "is_number (frame_name p) \<Longrightarrow> is_number (frame_name (horizontal this p))"
  "body p = Some b \<Longrightarrow> body (horizontal this p) =
     Some (b\<lparr> velocity_x :=
                (if key_isDown (leftKey this) then - VELOCITY
                 else if key_isDown (rightKey this) then VELOCITY else 0) \<rparr>)"
  by (simp_all add: horizontal_def play_keeps play_frame setVelocityX_def)

lemma vertical_keeps:
  "sprite_x (vertical this p) = sprite_x p" "sprite_y (vertical this p) = sprite_y p"
  "is_number (frame_name p) \<Longrightarrow> is_number (frame_name (vertical this p))"
  "body p = Some b \<Longrightarrow> body (vertical this p) =
     Some (b\<lparr> velocity_y :=
                (if key_isDown (upKey this) then - VELOCITY
                 else if key_isDown (downKey this) then VELOCITY else 0) \<rparr>)"
  by (simp_all add: vertical_def play_keeps play_frame setVelocityY_def)

lemma update_local:
  assumes "players this (myId this) = Some p" and "body p = Some b" and "wsClient this = Some ws"
  shows "fst (update this) =
           (if moving this \<and> readyState ws = CONNECTING then Some InvalidStateError else None)"
    and "wsClient (snd (update this)) =
           Some (if moving this
                 then snd (send (sample_message (myId this) (vertical this (horizontal this p))) ws)
                 else ws)"
    and "players (snd (update this)) =
           (players this)(myId this \<mapsto>
              (if moving this then vertical this (horizontal this p)
               else anims_stop (setVelocity 0 (vertical this (horizontal this p)))))"
  using assms by (simp_all add: update_def players_get_def send_def)

section \<open>Properties of a session\<close>

lemma on_local_fields:
  "myId (on_local f this) = myId this \<and> wsClient (on_local f this) = wsClient this \<and>
   leftKey (on_local f this) = leftKey this \<and> rightKey (on_local f this) = rightKey this \<and>
   upKey (on_local f this) = upKey this \<and> downKey (on_local f this) = downKey this"
  by (simp add: on_local_def split: option.splits)

lemma keyboard_fields:
  "myId (keyboard k d this) = myId this \<and> wsClient (keyboard k d this) = wsClient this \<and>
   players (keyboard k d this) = players this"
  by (cases k) simp_all

lemma step_myId: "myId (step this e) = myId this"
  by (cases e) (simp_all add: onmessage_fields keyboard_fields update_fields on_local_fields)

lemma run_myId: "myId (run this events) = myId this"
  unfolding run_def by (induction events arbitrary: this) (simp_all add: step_myId)

lemma run_Nil [simp]: "run this [] = this"
  by (simp add: run_def)

lemma run_Cons [simp]: "run this (e # events) = run (step this e) events"
  by (simp add: run_def)

lemma run_append: "run this (es @ fs) = run (run this es) fs"
  by (simp add: run_def)

lemma run_messages_socket: "wsClient (run this (map Message ms)) = wsClient this"
  by (induction ms arbitrary: this) (simp_all add: onmessage_fields)

lemma client_message_sample:
  "is_number (sprite_x p) \<Longrightarrow> is_number (sprite_y p) \<Longrightarrow> is_number (frame_name p) \<Longrightarrow>
   client_message ident (sample_message ident p)"
  by (simp add: client_message_def sample_message_def lookup_def)

lemma sample_message_frame: "get_prop (sample_message ident p) ''frame'' = frame_name p"
  by (simp add: get_prop_def sample_message_def lookup_def)

lemma running_create:
  assumes "wsClient this = Some ws" and "sent ws = []"
  shows "running (create this)"
  using assms
  by (simp add: running_def create_def physics_add_sprite_def add_sprite_def new_sprite_def
        is_number_def)

lemma running_local:
  assumes "running this"
  obtains ws p b where "wsClient this = Some ws" and "players this (myId this) = Some p"
    and "body p = Some b" and "list_all (client_message (myId this)) (sent ws)"
    and "is_number (sprite_x p)" and "is_number (sprite_y p)" and "is_number (frame_name p)"
    and "list_all (\<lambda>m. is_number (get_prop m ''frame'')) (sent ws)"
  using assms by (auto simp: running_def split: option.splits)

lemma running_update:
  assumes "running this"
  shows "running (snd (update this))"
proof -
  from assms obtain ws p b where l: "wsClient this = Some ws" "players this (myId this) = Some p"
    "body p = Some b" "list_all (client_message (myId this)) (sent ws)"
    "is_number (sprite_x p)" "is_number (sprite_y p)" "is_number (frame_name p)"
    "list_all (\<lambda>m. is_number (get_prop m ''frame'')) (sent ws)"
    by (rule running_local)
  let ?p = "vertical this (horizontal this p)"
  have n: "is_number (sprite_x ?p)" "is_number (sprite_y ?p)" "is_number (frame_name ?p)"
    using l by (simp_all add: horizontal_keeps vertical_keeps)
  have b: "body ?p \<noteq> None"
    using l(3) horizontal_keeps(4) [of p b this] vertical_keeps(4) [of "horizontal this p" _ this]
    by simp
  show ?thesis
    using update_local [OF l(2) l(3) l(1)] update_fields [of this] l(4) l(8) n b
      client_message_sample [OF n, of "myId this"]
    by (simp add: running_def send_def anims_stop_def setVelocity_def sample_message_frame)
qed

lemma running_step:
  assumes "running this"
  shows "running (step this e)"
proof (cases e)
  case (Message parsed)
  have "players (after (onmessage this parsed)) (myId this) = players this (myId this)"
    by (rule onmessage_untouched) simp
  with assms Message show ?thesis
    by (simp add: running_def onmessage_fields split: option.splits)
next
  case (Keyboard k d)
  with assms show ?thesis by (simp add: running_def keyboard_fields split: option.splits)
next
  case Tick
  with assms running_update show ?thesis by simp
next
  case (Moved x y)
  with assms show ?thesis
    by (auto simp: running_def on_local_def is_number_def split: option.splits)
next
  case (Animated n)
  with assms show ?thesis
    by (auto simp: running_def on_local_def is_number_def split: option.splits)
next
  case (Socket r)
  with assms show ?thesis by (auto simp: running_def split: option.splits)
qed

lemma running_run: "running this \<Longrightarrow> running (run this events)"
  by (induction events arbitrary: this) (simp_all add: running_step)

lemma session_myId: "myId (session uuid early events) = uuid"
  by (simp add: session_def run_myId create_def physics_add_sprite_def add_sprite_def
        preload_def init_def new_GameScene_def)

lemma running_session: "running (session uuid early events)"
proof -
  let ?s = "preload (run (init (new_GameScene uuid)) (map Message early))"
  have "wsClient ?s = Some \<lparr> readyState = CONNECTING, sent = [] \<rparr>"
    by (simp add: preload_def run_messages_socket init_def)
  then have "running (create ?s)" by (rule running_create) simp
  then show ?thesis unfolding session_def by (rule running_run)
qed

section \<open>Claims about the tick and the session\<close>

lemmas session_simps =
  session_def create_def physics_add_sprite_def add_sprite_def new_sprite_def texture_get_def
  preload_def init_def new_GameScene_def set_isDown_def update_def players_get_def
  Object_prototype_def moving_def key_isDown_def horizontal_def vertical_def play_def anims_def
  setVelocityX_def setVelocityY_def setVelocity_def anims_stop_def send_def sample_message_def
  sent_messages_def VELOCITY_def




lemma step_not_Tick:
  "e \<noteq> Tick \<Longrightarrow> sent_messages (step this e) = sent_messages this"
  by (cases e)
     (simp_all add: sent_messages_def onmessage_fields keyboard_fields on_local_fields
        split: option.splits)

text \<open>
  Claim C7: every message a client session has handed to its socket is one object
  \<^verbatim>\<open>{id, x, y, frame}\<close> with the local id, numeric \<^verbatim>\<open>x\<close> and \<^verbatim>\<open>y\<close>, and a frame
  that is a number or a string. No event other than a tick sends, a tick without a
  movement key down sends nothing, and a tick with one sends one such message.
\<close>

theorem sent_message_shape:
  assumes "this = session uuid early events"
  shows "list_all (client_message uuid) (sent_messages this) \<and>
         (\<forall>e. e \<noteq> Tick \<longrightarrow> sent_messages (step this e) = sent_messages this) \<and>
         (\<not> moving this \<longrightarrow> sent_messages (step this Tick) = sent_messages this) \<and>
         (moving this \<longrightarrow>
            (\<exists>m. client_message uuid m \<and>
                 sent_messages (step this Tick) = sent_messages this @ [m]))"
proof -
  have r: "running this" and i: "myId this = uuid"
    using assms by (simp_all add: running_session session_myId)
  from r obtain ws p b where l: "wsClient this = Some ws"
    "players this (myId this) = Some p" "body p = Some b"
    "list_all (client_message (myId this)) (sent ws)"
    "is_number (sprite_x p)" "is_number (sprite_y p)" "is_number (frame_name p)"
    by (rule running_local)
  let ?p = "vertical this (horizontal this p)"
  have "client_message uuid (sample_message uuid ?p)"
    using l(5-7) by (intro client_message_sample) (simp_all add: horizontal_keeps vertical_keeps)
  moreover have "wsClient (step this Tick) =
      Some (if moving this then snd (send (sample_message uuid ?p) ws) else ws)"
    using update_local(2) [OF l(2) l(3) l(1)] i by simp
  ultimately have "\<not> moving this \<longrightarrow> sent_messages (step this Tick) = sent_messages this"
    and "moving this \<longrightarrow>
            (\<exists>m. client_message uuid m \<and>
                 sent_messages (step this Tick) = sent_messages this @ [m])"
    using l(1) by (auto simp: sent_messages_def send_def)
  moreover have "list_all (client_message uuid) (sent_messages this)"
    using l(1) l(4) i by (simp add: sent_messages_def)
  ultimately show ?thesis using step_not_Tick by blast
qed

theorem sent_message_shape_witness:
  "Moved 50 48 \<noteq> Tick \<and>
   \<not> moving (session ''me'' [] []) \<and>
   moving (session ''me'' [] [Keyboard RIGHT True]) \<and>
   sent_messages (session ''me'' [] [Keyboard RIGHT True, Tick]) =
     [JObj [(''id'', JStr ''me''), (''x'', JNum 48), (''y'', JNum 48), (''frame'', JNum 1)]] \<and>
   list_all (client_message ''me'') (sent_messages (session ''me'' [] [Keyboard RIGHT True, Tick]))"
  using sent_message_shape [OF refl, of "''me''" "[]" "[Keyboard RIGHT True, Tick]"]
  by (simp add: session_simps)

text \<open>
  Claim C8: the token is fixed when the scene is constructed, at which point there is no
  socket; \<^verbatim>\<open>init()\<close>, the loader, \<^verbatim>\<open>create()\<close> and every run of events keep it. So
  in every state of a session the local id is the token of the construction, every
  message handed to the socket carries it in \<^verbatim>\<open>id\<close>, and the handler's self-exclusion
  test excludes exactly it: no action for it, whatever arrives.
\<close>

theorem participant_id_stable:
  "wsClient (new_GameScene uuid) = None \<and> myId (new_GameScene uuid) = uuid \<and>
   myId (init this) = myId this \<and> myId (preload this) = myId this \<and>
   myId (create this) = myId this \<and> myId (run this events) = myId this \<and>
   myId (session uuid early events) = uuid \<and>
   list_all (\<lambda>m. get_prop m ''id'' = JStr uuid) (sent_messages (session uuid early events)) \<and>
   uuid \<notin> action_id ` set (actions (onmessage (session uuid early events) parsed))"
proof -
  have r: "running (session uuid early events)" by (rule running_session)
  have i: "myId (session uuid early events) = uuid" by (rule session_myId)
  from r obtain ws where "wsClient (session uuid early events) = Some ws"
    and "list_all (client_message (myId (session uuid early events))) (sent ws)"
    by (rule running_local)
  moreover have "\<And>m. client_message uuid m \<Longrightarrow> get_prop m ''id'' = JStr uuid"
    by (auto simp: client_message_def get_prop_def split: jsval.splits)
  ultimately have "list_all (\<lambda>m. get_prop m ''id'' = JStr uuid)
      (sent_messages (session uuid early events))"
    using i by (auto simp: sent_messages_def list_all_iff)
  moreover have "uuid \<notin> action_id ` set (actions (onmessage (session uuid early events) parsed))"
    using onmessage_action_ids [of _ "session uuid early events" parsed] i by fastforce
  ultimately show ?thesis
    by (simp add: run_myId session_myId new_GameScene_def init_def preload_def create_def
          physics_add_sprite_def add_sprite_def)
qed

theorem participant_id_stable_witness:
  "myId (session ''me'' [Inr (JObj [(''me'', ICoords 1 2 3)])] [Keyboard RIGHT True, Tick]) = ''me'' \<and>
   sent_messages (session ''me'' [Inr (JObj [(''me'', ICoords 1 2 3)])] [Keyboard RIGHT True, Tick]) =
     [JObj [(''id'', JStr ''me''), (''x'', JNum 48), (''y'', JNum 48), (''frame'', JNum 1)]]"
  using participant_id_stable [of "''me''" "new_GameScene ''me''" "[Keyboard RIGHT True, Tick]"
      "[Inr (JObj [(''me'', ICoords 1 2 3)])]" "Inl SyntaxError"]
  by (simp add: session_simps scene_simps)

text \<open>
  Claim C10: the frame field of a sent message is a string. The local sprite is created
  with frame \<^verbatim>\<open>1\<close> (line 126) and animated over the frame numbers of lines 100 to
  123; the frames of a spritesheet are named by these numbers, and \<^verbatim>\<open>frame.name\<close>
  gives the number back. The first message of a client that presses the right arrow
  carries \<^verbatim>\<open>frame: 1\<close>, a number.
\<close>

theorem sent_frame_is_a_number_counterexample:
  "sent_messages (session ''me'' [] [Keyboard RIGHT True, Tick]) =
     [JObj [(''id'', JStr ''me''), (''x'', JNum 48), (''y'', JNum 48), (''frame'', JNum 1)]] \<and>
   \<not> list_all (\<lambda>m. is_string (get_prop m ''frame''))
       (sent_messages (session ''me'' [] [Keyboard RIGHT True, Tick]))"
  by (simp add: session_simps get_prop_def lookup_def is_string_def)

text \<open>
  Claim C10 as amended: the frame field of a sent message is the name of the frame the
  local sprite shows when the tick sends, passed on as it is; in every session it is a
  frame number, the representation received tables use as well.
\<close>

theorem frame_field_is_frame_number:
  assumes "this = session uuid early events"
  shows "list_all (\<lambda>m. is_number (get_prop m ''frame'')) (sent_messages this) \<and>
         (moving this \<longrightarrow>
            (\<exists>p. players (step this Tick) uuid = Some p \<and>
                 sent_messages (step this Tick) = sent_messages this @ [sample_message uuid p] \<and>
                 get_prop (sample_message uuid p) ''frame'' = frame_name p \<and>
                 is_number (frame_name p)))"
proof -
  have r: "running this" and i: "myId this = uuid"
    using assms by (simp_all add: running_session session_myId)
  from r obtain ws p b where l: "wsClient this = Some ws"
    "players this (myId this) = Some p" "body p = Some b"
    "list_all (client_message (myId this)) (sent ws)"
    "is_number (sprite_x p)" "is_number (sprite_y p)" "is_number (frame_name p)"
    "list_all (\<lambda>m. is_number (get_prop m ''frame'')) (sent ws)"
    by (rule running_local)
  let ?p = "vertical this (horizontal this p)"
  have "is_number (frame_name ?p)"
    using l(7) by (simp add: horizontal_keeps vertical_keeps)
  moreover have "moving this \<longrightarrow> players (step this Tick) uuid = Some ?p"
    using update_local(3) [OF l(2) l(3) l(1)] i by simp
  moreover have "moving this \<longrightarrow>
      sent_messages (step this Tick) = sent_messages this @ [sample_message uuid ?p]"
    using update_local(2) [OF l(2) l(3) l(1)] i l(1) by (simp add: sent_messages_def send_def)
  moreover have "list_all (\<lambda>m. is_number (get_prop m ''frame'')) (sent_messages this)"
    using l(1) l(8) by (simp add: sent_messages_def)
  ultimately show ?thesis by (auto simp: sample_message_frame)
qed

theorem frame_field_is_frame_number_witness:
  "moving (session ''me'' [] [Keyboard UP True]) \<and>
   sent_messages (step (session ''me'' [] [Keyboard UP True]) Tick) =
     [JObj [(''id'', JStr ''me''), (''x'', JNum 48), (''y'', JNum 48), (''frame'', JNum 11)]] \<and>
   is_number (JNum 11)"
  using frame_field_is_frame_number [OF refl, of "''me''" "[]" "[Keyboard UP True]"]
  by (simp add: session_simps is_number_def)

section \<open>The registry and the display list\<close>

text \<open>
  Creating, replacing and updating keep the registry and the display list in step, and
  so does every event of a session. A sprite the handler leaves alone is therefore still
  displayed afterwards: \<^verbatim>\<open>destroy()\<close> only ever hits the sprite that is replaced.
\<close>

lemma registry_liveD:
  assumes "registry_live this"
  shows "players this k = Some p \<Longrightarrow> handle p < next_handle this"
    and "players this k = Some p \<Longrightarrow> players this j = Some q \<Longrightarrow> handle q = handle p \<Longrightarrow> j = k"
    and "h \<in> set (display_list this) \<longleftrightarrow> (\<exists>k p. players this k = Some p \<and> handle p = h)"
  using assms unfolding registry_live_def by blast+

lemma registry_liveI:
  assumes "\<And>k p. players this k = Some p \<Longrightarrow> handle p < next_handle this"
    and "\<And>k j p q. players this k = Some p \<Longrightarrow> players this j = Some q \<Longrightarrow>
           handle q = handle p \<Longrightarrow> j = k"
    and "\<And>h. h \<in> set (display_list this) \<longleftrightarrow> (\<exists>k p. players this k = Some p \<and> handle p = h)"
  shows "registry_live this"
  unfolding registry_live_def using assms by blast

lemma live_update:
  assumes l: "registry_live this" and k: "players this k = Some player"
    and q: "handle q = handle player"
  shows "registry_live (this\<lparr> players := (players this)(k \<mapsto> q) \<rparr>)"
proof (rule registry_liveI)
  fix j p
  assume "players (this\<lparr>players := (players this)(k \<mapsto> q)\<rparr>) j = Some p"
  then have "(j = k \<and> p = q) \<or> (j \<noteq> k \<and> players this j = Some p)"
    by (simp split: if_splits)
  then show "handle p < next_handle (this\<lparr>players := (players this)(k \<mapsto> q)\<rparr>)"
    using registry_liveD(1) [OF l] k q by auto
next
  fix i j p r
  assume "players (this\<lparr>players := (players this)(k \<mapsto> q)\<rparr>) i = Some p"
    and "players (this\<lparr>players := (players this)(k \<mapsto> q)\<rparr>) j = Some r"
    and h: "handle r = handle p"
  then have i: "(i = k \<and> p = q) \<or> (i \<noteq> k \<and> players this i = Some p)"
    and j: "(j = k \<and> r = q) \<or> (j \<noteq> k \<and> players this j = Some r)"
    by (simp_all split: if_splits)
  from i show "j = i"
  proof
    assume a: "i = k \<and> p = q"
    from j show ?thesis
    proof
      assume "j = k \<and> r = q" with a show ?thesis by simp
    next
      assume b: "j \<noteq> k \<and> players this j = Some r"
      have "handle r = handle player" using h a q by simp
      from registry_liveD(2) [OF l k _ this, of j] b have "j = k" by simp
      with b show ?thesis by simp
    qed
  next
    assume a: "i \<noteq> k \<and> players this i = Some p"
    from j show ?thesis
    proof
      assume b: "j = k \<and> r = q"
      have "handle player = handle p" using h b q by simp
      from registry_liveD(2) [OF l _ k this, of i] a have "k = i" by simp
      with a show ?thesis by simp
    next
      assume b: "j \<noteq> k \<and> players this j = Some r"
      from registry_liveD(2) [OF l _ _ h, of i j] a b show ?thesis by simp
    qed
  qed
next
  fix h
  have "(\<exists>j p. players (this\<lparr>players := (players this)(k \<mapsto> q)\<rparr>) j = Some p \<and> handle p = h)
        \<longleftrightarrow> (\<exists>j p. players this j = Some p \<and> handle p = h)" (is "?L \<longleftrightarrow> ?R")
  proof
    assume ?L
    then obtain j p where
      "(j = k \<and> p = q) \<or> (j \<noteq> k \<and> players this j = Some p)" and "handle p = h"
      by (auto split: if_splits)
    then show ?R using k q by metis
  next
    assume ?R
    then obtain j p where jp: "players this j = Some p" "handle p = h" by blast
    show ?L
    proof (cases "j = k")
      case True
      with jp k q have "players (this\<lparr>players := (players this)(k \<mapsto> q)\<rparr>) k = Some q \<and> handle q = h"
        by simp
      then show ?thesis by blast
    next
      case False
      with jp have "players (this\<lparr>players := (players this)(k \<mapsto> q)\<rparr>) j = Some p \<and> handle p = h"
        by simp
      then show ?thesis by blast
    qed
  qed
  then show "h \<in> set (display_list (this\<lparr>players := (players this)(k \<mapsto> q)\<rparr>)) \<longleftrightarrow>
        (\<exists>j p. players (this\<lparr>players := (players this)(k \<mapsto> q)\<rparr>) j = Some p \<and> handle p = h)"
    using registry_liveD(3) [OF l, of h] by simp
qed

lemma live_remove:
  assumes l: "registry_live this" and k: "players this k = Some player"
  shows "registry_live (this\<lparr> players := (players this)(k := None),
            display_list := removeAll (handle player) (display_list this) \<rparr>)"
proof (rule registry_liveI)
  fix j p
  assume "players (this\<lparr> players := (players this)(k := None),
            display_list := removeAll (handle player) (display_list this) \<rparr>) j = Some p"
  then have "players this j = Some p" by (simp split: if_splits)
  then show "handle p < next_handle (this\<lparr> players := (players this)(k := None),
            display_list := removeAll (handle player) (display_list this) \<rparr>)"
    using registry_liveD(1) [OF l] by simp
next
  fix i j p r
  assume "players (this\<lparr> players := (players this)(k := None),
            display_list := removeAll (handle player) (display_list this) \<rparr>) i = Some p"
    and "players (this\<lparr> players := (players this)(k := None),
            display_list := removeAll (handle player) (display_list this) \<rparr>) j = Some r"
    and h: "handle r = handle p"
  then have "players this i = Some p" and "players this j = Some r"
    by (simp_all split: if_splits)
  then show "j = i" using registry_liveD(2) [OF l _ _ h] by blast
next
  fix h
  have "(\<exists>j p. ((players this)(k := None)) j = Some p \<and> handle p = h) \<longleftrightarrow>
        (h \<noteq> handle player \<and> (\<exists>j p. players this j = Some p \<and> handle p = h))"
    (is "?L \<longleftrightarrow> ?R")
  proof
    assume ?L
    then obtain j p where jp: "j \<noteq> k" "players this j = Some p" "handle p = h"
      by (auto split: if_splits)
    have "h \<noteq> handle player"
    proof
      assume "h = handle player"
      with jp have "handle p = handle player" by simp
      from registry_liveD(2) [OF l k jp(2) this] jp(1) show False by simp
    qed
    with jp show ?R by blast
  next
    assume r: ?R
    then obtain j p where jp: "players this j = Some p" "handle p = h" by blast
    with r k have "j \<noteq> k" by auto
    with jp have "((players this)(k := None)) j = Some p \<and> handle p = h" by simp
    then show ?L by blast
  qed
  then show "h \<in> set (display_list (this\<lparr> players := (players this)(k := None),
            display_list := removeAll (handle player) (display_list this) \<rparr>)) \<longleftrightarrow>
        (\<exists>j p. players (this\<lparr> players := (players this)(k := None),
            display_list := removeAll (handle player) (display_list this) \<rparr>) j = Some p \<and>
            handle p = h)"
    using registry_liveD(3) [OF l, of h] by auto
qed

lemma live_create:
  assumes l: "registry_live this" and k: "players this k = None"
    and q: "handle q = next_handle this"
  shows "registry_live (this\<lparr> display_list := display_list this @ [next_handle this],
            next_handle := Suc (next_handle this), players := (players this)(k \<mapsto> q) \<rparr>)"
    (is "registry_live ?this'")
proof (rule registry_liveI)
  fix j p
  assume "players ?this' j = Some p"
  then have "(j = k \<and> p = q) \<or> (j \<noteq> k \<and> players this j = Some p)"
    by (simp split: if_splits)
  then show "handle p < next_handle ?this'"
    using registry_liveD(1) [OF l] q by (auto simp: less_Suc_eq)
next
  fix i j p r
  assume "players ?this' i = Some p" and "players ?this' j = Some r"
    and h: "handle r = handle p"
  then have i: "(i = k \<and> p = q) \<or> (i \<noteq> k \<and> players this i = Some p)"
    and j: "(j = k \<and> r = q) \<or> (j \<noteq> k \<and> players this j = Some r)"
    by (simp_all split: if_splits)
  from i show "j = i"
  proof
    assume a: "i = k \<and> p = q"
    from j show ?thesis
    proof
      assume "j = k \<and> r = q" with a show ?thesis by simp
    next
      assume b: "j \<noteq> k \<and> players this j = Some r"
      then have "handle r < next_handle this" using registry_liveD(1) [OF l] by blast
      with h a q show ?thesis by simp
    qed
  next
    assume a: "i \<noteq> k \<and> players this i = Some p"
    then have lt: "handle p < next_handle this" using registry_liveD(1) [OF l] by blast
    from j show ?thesis
    proof
      assume "j = k \<and> r = q"
      with h q lt show ?thesis by simp
    next
      assume b: "j \<noteq> k \<and> players this j = Some r"
      from registry_liveD(2) [OF l _ _ h, of i j] a b show ?thesis by simp
    qed
  qed
next
  fix h
  have "(\<exists>j p. ((players this)(k \<mapsto> q)) j = Some p \<and> handle p = h) \<longleftrightarrow>
        (h = next_handle this \<or> (\<exists>j p. players this j = Some p \<and> handle p = h))"
    (is "?L \<longleftrightarrow> ?R")
  proof
    assume ?L
    then obtain j p where
      "(j = k \<and> p = q) \<or> (j \<noteq> k \<and> players this j = Some p)" and "handle p = h"
      by (auto split: if_splits)
    then show ?R using q by auto
  next
    assume ?R
    then show ?L
    proof
      assume "h = next_handle this"
      then have "((players this)(k \<mapsto> q)) k = Some q \<and> handle q = h" using q by simp
      then show ?L by blast
    next
      assume "\<exists>j p. players this j = Some p \<and> handle p = h"
      then obtain j p where jp: "players this j = Some p" "handle p = h" by blast
      with k have "j \<noteq> k" by auto
      with jp have "((players this)(k \<mapsto> q)) j = Some p \<and> handle p = h" by simp
      then show ?L by blast
    qed
  qed
  then show "h \<in> set (display_list ?this') \<longleftrightarrow>
        (\<exists>j p. players ?this' j = Some p \<and> handle p = h)"
    using registry_liveD(3) [OF l, of h] by auto
qed

lemma registry_live_cong:
  "players a = players b \<Longrightarrow> display_list a = display_list b \<Longrightarrow>
   next_handle a = next_handle b \<Longrightarrow> registry_live a = registry_live b"
  by (simp add: registry_live_def)

lemma iteration_live:
  assumes l: "registry_live this" and act: "iteration pc this k = Act a this'"
  shows "registry_live this'"
proof (cases "players this k")
  case None
  from act None obtain x y f where
    "this' = (snd (add_sprite this x y ''player'' f))
       \<lparr> players := (players this)(k \<mapsto> fst (add_sprite this x y ''player'' f)) \<rparr>"
    by (auto simp: iteration_def players_get_def split: if_splits sum.splits)
  then have "this' = this\<lparr> display_list := display_list this @ [next_handle this],
      next_handle := Suc (next_handle this),
      players := (players this)(k \<mapsto> new_sprite this x y ''player'' f) \<rparr>"
    by (simp add: add_sprite_def)
  moreover have "handle (new_sprite this x y ''player'' f) = next_handle this"
    by (simp add: new_sprite_def)
  ultimately show ?thesis using live_create [OF l None] by simp
next
  case (Some player)
  show ?thesis
  proof (cases "texture_key player = ''__MISSING''")
    case False
    from act Some False obtain x y f where
      "this' = this\<lparr> players := (players this)(k \<mapsto>
                 player\<lparr> sprite_x := x, sprite_y := y, frame_name := f \<rparr>) \<rparr>"
      by (auto simp: iteration_def players_get_def split: if_splits sum.splits)
    then show ?thesis using live_update [OF l Some] by simp
  next
    case True
    let ?mid = "this\<lparr> players := (players this)(k := None),
                  display_list := removeAll (handle player) (display_list this) \<rparr>"
    from act Some True obtain x y f where
      "this' = (snd (add_sprite (destroy player this) x y ''player'' f))
         \<lparr> players := (players this)(k \<mapsto>
              fst (add_sprite (destroy player this) x y ''player'' f)) \<rparr>"
      by (auto simp: iteration_def players_get_def split: if_splits sum.splits)
    then have "this' = ?mid\<lparr> display_list := display_list ?mid @ [next_handle ?mid],
        next_handle := Suc (next_handle ?mid),
        players := (players ?mid)(k \<mapsto> new_sprite this x y ''player'' f) \<rparr>"
      by (simp add: add_sprite_def destroy_def new_sprite_def)
    moreover have "handle (new_sprite this x y ''player'' f) = next_handle ?mid"
      by (simp add: new_sprite_def)
    moreover have "players ?mid k = None" by simp
    ultimately show ?thesis
      using live_create [OF live_remove [OF l Some], of k "new_sprite this x y ''player'' f"]
      by simp
  qed
qed

lemma for_playerId_live:
  "registry_live this \<Longrightarrow> registry_live (after (for_playerId pc this ks))"
proof (induction ks arbitrary: this)
  case Nil
  then show ?case by simp
next
  case (Cons k rest)
  show ?case
  proof (cases "iteration pc this k")
    case Skip
    with Cons show ?thesis by (simp add: for_playerId_Cons)
  next
    case (Stop e)
    with Cons.prems show ?thesis by (simp add: for_playerId_Cons)
  next
    case (Act a this')
    from Cons.IH [OF iteration_live [OF Cons.prems Act]] Act show ?thesis
      by (simp add: for_playerId_Cons)
  qed
qed

lemma onmessage_live:
  assumes "registry_live this"
  shows "registry_live (after (onmessage this parsed))"
proof (cases rule: onmessage_cases [of this parsed])
  case (raised e)
  with assms show ?thesis by simp
next
  case (looped entries)
  with for_playerId_live [OF assms] show ?thesis by simp
qed

lemma on_local_live:
  assumes "registry_live this" and "\<And>p. handle (f p) = handle p"
  shows "registry_live (on_local f this)"
proof (cases "players this (myId this)")
  case None
  with assms(1) show ?thesis by (simp add: on_local_def)
next
  case (Some p)
  from live_update [OF assms(1) Some assms(2)] Some show ?thesis by (simp add: on_local_def)
qed

lemma axes_handle: "handle (vertical this (horizontal this p)) = handle p"
  by (simp add: vertical_def horizontal_def play_keeps setVelocityX_def setVelocityY_def)

lemma update_scene:
  "display_list (snd (update this)) = display_list this \<and>
   next_handle (snd (update this)) = next_handle this"
  by (simp add: update_def split: member.splits option.splits)

lemma update_players:
  assumes "players this (myId this) = Some p"
  shows "body p = None \<Longrightarrow> players (snd (update this)) = players this"
    and "body p = Some b \<Longrightarrow> moving this \<Longrightarrow>
         players (snd (update this)) =
           (players this)(myId this \<mapsto> vertical this (horizontal this p))"
    and "body p = Some b \<Longrightarrow> \<not> moving this \<Longrightarrow>
         players (snd (update this)) =
           (players this)(myId this \<mapsto>
              anims_stop (setVelocity 0 (vertical this (horizontal this p))))"
proof -
  show "body p = None \<Longrightarrow> players (snd (update this)) = players this"
    using assms by (simp add: update_def players_get_def)
  show "body p = Some b \<Longrightarrow> moving this \<Longrightarrow>
         players (snd (update this)) =
           (players this)(myId this \<mapsto> vertical this (horizontal this p))"
    using assms by (cases "wsClient this") (simp_all add: update_def players_get_def)
  show "body p = Some b \<Longrightarrow> \<not> moving this \<Longrightarrow>
         players (snd (update this)) =
           (players this)(myId this \<mapsto>
              anims_stop (setVelocity 0 (vertical this (horizontal this p))))"
    using assms by (simp add: update_def players_get_def)
qed

lemma update_live:
  assumes "registry_live this"
  shows "registry_live (snd (update this))"
proof (cases "players this (myId this)")
  case None
  then have "snd (update this) = this" by (simp add: update_def players_get_def)
  with assms show ?thesis by simp
next
  case (Some p)
  let ?p = "vertical this (horizontal this p)"
  let ?q = "anims_stop (setVelocity 0 ?p)"
  have a: "registry_live (this\<lparr> players := (players this)(myId this \<mapsto> ?p) \<rparr>)"
    by (rule live_update [OF assms Some axes_handle])
  have b: "registry_live (this\<lparr> players := (players this)(myId this \<mapsto> ?q) \<rparr>)"
    by (rule live_update [OF assms Some]) (simp add: anims_stop_def setVelocity_def axes_handle)
  consider "body p = None" | b where "body p = Some b" "moving this"
    | b where "body p = Some b" "\<not> moving this"
    by (cases "body p") auto
  then show ?thesis
  proof cases
    case 1
    from update_players(1) [OF Some 1]
    have "registry_live (snd (update this)) = registry_live this"
      by (intro registry_live_cong) (simp_all add: update_scene)
    with assms show ?thesis by simp
  next
    case (2 b)
    from update_players(2) [OF Some 2]
    have "registry_live (snd (update this)) =
        registry_live (this\<lparr> players := (players this)(myId this \<mapsto> ?p) \<rparr>)"
      by (intro registry_live_cong) (simp_all add: update_scene)
    with a show ?thesis by simp
  next
    case (3 b)
    from update_players(3) [OF Some 3]
    have "registry_live (snd (update this)) =
        registry_live (this\<lparr> players := (players this)(myId this \<mapsto> ?q) \<rparr>)"
      by (intro registry_live_cong) (simp_all add: update_scene)
    with b show ?thesis by simp
  qed
qed

lemma keyboard_live: "registry_live (keyboard k d this) = registry_live this"
  by (rule registry_live_cong; cases k; simp)

lemma step_live:
  assumes "registry_live this"
  shows "registry_live (step this e)"
proof (cases e)
  case (Message parsed)
  with onmessage_live [OF assms] show ?thesis by simp
next
  case (Keyboard k d)
  with assms show ?thesis by (simp add: keyboard_live)
next
  case Tick
  with update_live [OF assms] show ?thesis by simp
next
  case (Moved x y)
  have "registry_live (on_local (\<lambda>p. p\<lparr> sprite_x := JNum x, sprite_y := JNum y \<rparr>) this)"
    by (rule on_local_live [OF assms]) simp
  with Moved show ?thesis by simp
next
  case (Animated n)
  have "registry_live (on_local (\<lambda>p. p\<lparr> frame_name := JNum n \<rparr>) this)"
    by (rule on_local_live [OF assms]) simp
  with Animated show ?thesis by simp
next
  case (Socket r)
  have "registry_live (step this (Socket r)) = registry_live this"
    by (intro registry_live_cong) simp_all
  with assms Socket show ?thesis by simp
qed

lemma run_live: "registry_live this \<Longrightarrow> registry_live (run this events)"
  by (induction events arbitrary: this) (simp_all add: step_live)

lemma run_messages_local:
  "players (run this (map Message ms)) (myId this) = players this (myId this)"
proof (induction ms arbitrary: this)
  case Nil
  show ?case by simp
next
  case (Cons m ms)
  have "players (after (onmessage this m)) (myId this) = players this (myId this)"
    by (rule onmessage_untouched) simp
  with Cons [of "after (onmessage this m)"] show ?case by (simp add: onmessage_fields)
qed

lemma create_live:
  assumes "registry_live this" and "players this (myId this) = None"
  shows "registry_live (create this)"
proof -
  let ?q = "(new_sprite this (JNum 48) (JNum 48) ''player'' (JNum 1))
              \<lparr> body := Some \<lparr> velocity_x = 0, velocity_y = 0 \<rparr> \<rparr>"
  let ?t = "this\<lparr> display_list := display_list this @ [next_handle this],
               next_handle := Suc (next_handle this),
               players := (players this)(myId this \<mapsto> ?q) \<rparr>"
  have "handle ?q = next_handle this" by (simp add: new_sprite_def)
  from live_create [OF assms this] have "registry_live ?t" .
  moreover have "registry_live (create this) = registry_live ?t"
    by (intro registry_live_cong)
       (simp_all add: create_def physics_add_sprite_def add_sprite_def)
  ultimately show ?thesis by simp
qed

lemma session_live: "registry_live (session uuid early events)"
proof -
  let ?s = "run (init (new_GameScene uuid)) (map Message early)"
  have "registry_live (init (new_GameScene uuid))"
    by (simp add: registry_live_def init_def new_GameScene_def)
  then have "registry_live ?s" by (rule run_live)
  moreover have "registry_live (preload ?s) = registry_live ?s"
    by (intro registry_live_cong) (simp_all add: preload_def)
  ultimately have "registry_live (preload ?s)" by simp
  moreover note \<open>registry_live (preload ?s)\<close>
  moreover have "players (preload ?s) (myId (preload ?s)) = None"
    using run_messages_local [of "init (new_GameScene uuid)" early]
    by (simp add: preload_def run_myId init_def new_GameScene_def)
  ultimately have "registry_live (create (preload ?s))" by (intro create_live)
  then show ?thesis unfolding session_def by (rule run_live)
qed

lemma absent_ids_stay_displayed:
  assumes "registry_live this" and "players this k = Some sprite"
    and "k \<notin> set (received_ids parsed)"
  shows "handle sprite \<in> set (display_list (after (onmessage this parsed)))"
proof -
  have "players (after (onmessage this parsed)) k = Some sprite"
    using onmessage_untouched [of k parsed this] assms(2,3) by simp
  then show ?thesis using registry_liveD(3) [OF onmessage_live [OF assms(1)]] by blast
qed

section \<open>Properties of numbers as text\<close>




lemma value_of_Nil [simp]: "value_of [] = 0"
  by (simp add: value_of_def)






lemma fraction_length [simp]: "length (fraction k f) = k"
  by (induction k arbitrary: f) simp_all

















lemmas number_simps =
  parse_number_def parse_sign_def digits_def parse_fraction_def parse_exponent_def scaled_def
  is_digit_def value_of_def digit_value_def

lemmas print_simps =
  print_number_def decimal_scale_def scale_search.simps is_int_def decimal.simps
  quote_def escape_def property_def

lemma print_number_examples:
  "print_number 48 = ''48''" "print_number (- 50.25) = ''-50.25''" "print_number 0.5 = ''0.5''"
  by (simp_all add: print_simps)

lemma parse_number_examples:
  "parse_number ''-50.25,'' = Some (- 50.25, '','')" "parse_number ''1e3}'' = Some (1000, ''}'')"
  "parse_number ''25e-1}'' = Some (2.5, ''}'')"
  "parse_number ''01'' = None" "parse_number ''1.'' = None" "parse_number ''-'' = None"
  by (simp_all add: number_simps)

section \<open>Properties of strings as text\<close>





lemma quote_examples:
  "quote ''a b'' = [dquote, CHR ''a'', CHR '' '', CHR ''b'', dquote]"
  "quote [CHR 0x0A, CHR 0x01] =
     [dquote, backslash, CHR ''n'', backslash, CHR ''u'', CHR ''0'', CHR ''0'', CHR ''0'',
      CHR ''1'', dquote]"
  by (simp_all add: quote_def escape_def dquote_def backslash_def hex_digit_def)

section \<open>Properties of JSON text\<close>

lemmas parse_simps =
  parse_value.simps parse_elements.simps parse_members.simps JSON_parse_def
  skip_ws_def is_ws_def starts_def literal_def parse_string_def dquote_def backslash_def
  unescape_def hex_value_def create_properties_def create_property_def is_index_def
  number_simps

text \<open>
  White space around the tokens is skipped. A key met again keeps the later value, and
  the object lists its array indices first. A comma before the closing bracket and text
  after the value are syntax errors.
\<close>

lemma JSON_parse_examples:
  "JSON_parse (''{ '' @ quote ''a'' @ '' : [1, true, null, '' @ quote ''x'' @ ''] }'') =
     Inr (JObj [(''a'', JArr [JNum 1, JBool True, Null, JStr ''x''])])"
  "JSON_parse (''{'' @ quote ''b'' @ '':1,'' @ quote ''2'' @ '':-2.5,'' @ quote ''b'' @ '':3,'' @
               quote ''1'' @ '':{}}'') =
     Inr (JObj [(''1'', JObj []), (''2'', JNum (- 2.5)), (''b'', JNum 3)])"
  "JSON_parse ''[1,]'' = Inl SyntaxError" "JSON_parse ''[1] x'' = Inl SyntaxError"
  "JSON_parse [] = Inl SyntaxError"
  "JSON_parse ''[[[[]]]]'' = Inr (JArr [JArr [JArr [JArr []]]])"
  by (simp_all add: parse_simps quote_def escape_def)























section \<open>The round trip of the state table\<close>



section \<open>Further scenarios\<close>

text \<open>
  A table that arrives while the assets load creates its sprite with the placeholder
  texture. When the same id arrives after \<^verbatim>\<open>create()\<close>, the handler destroys that
  sprite and creates a new one: the \<open>Replace\<close> branch. The local sprite has handle 1,
  the replaced sprite had handle 0, the new one has handle 2.
\<close>

lemma replacement_scenario:
  "players (session ''C'' [Inr (JObj [(''A'', ICoords 1 2 3)])] []) ''A'' =
     Some \<lparr> handle = 0, sprite_x = JNum 1, sprite_y = JNum 2, frame_name = JNum 3,
            texture_key = ''__MISSING'', body = None, playing = None \<rparr> \<and>
   actions (onmessage (session ''C'' [Inr (JObj [(''A'', ICoords 1 2 3)])] [])
       (Inr (JObj [(''A'', ICoords 4 5 6)]))) = [Replace ''A'' (JNum 4) (JNum 5) (JNum 6)] \<and>
   players (after (onmessage (session ''C'' [Inr (JObj [(''A'', ICoords 1 2 3)])] [])
       (Inr (JObj [(''A'', ICoords 4 5 6)])))) ''A'' =
     Some \<lparr> handle = 2, sprite_x = JNum 4, sprite_y = JNum 5, frame_name = JNum 6,
            texture_key = ''player'', body = None, playing = None \<rparr> \<and>
   display_list (after (onmessage (session ''C'' [Inr (JObj [(''A'', ICoords 1 2 3)])] [])
       (Inr (JObj [(''A'', ICoords 4 5 6)])))) = [1, 2]"
  by (simp add: session_simps scene_simps)

text \<open>
  The keys of an array are its indices: the payload \<^verbatim>\<open>[{"x":1,"y":2,"frame":3}]\<close>
  creates a sprite for the id \<^verbatim>\<open>0\<close>. The payload \<^verbatim>\<open>null\<close> throws at
  \<^verbatim>\<open>Object.keys\<close> and changes nothing.
\<close>

lemma array_payload_scenario:
  "actions (onmessage scene_A (Inr (JArr [ICoords 1 2 3]))) =
     [Create ''0'' (JNum 1) (JNum 2) (JNum 3)]"
  by (simp add: scene_simps index_keys_def decimal.simps)

lemma null_payload_scenario:
  "onmessage this (Inr Null) = (Some TypeError, [], this)"
  by (simp add: onmessage_def own_properties_def)

lemma decimal_examples: "decimal 7 = ''7''" "decimal 12 = ''12''" "decimal 305 = ''305''"
  by (simp_all add: decimal.simps)

end
